theory Spec2Isabelle
  imports Complex_Main "HOL-Library.Multiset" "HOL-Library.Log_Nat"
begin

section \<open>Numbers and points\<close>

text \<open>
  The grid engine lives in \<^verbatim>\<open>static/js/main.js\<close> (desktop) and
  \<^verbatim>\<open>static/js/mobile.js\<close> (mobile). The numbers of the geometry are modelled
  as reals, with exact arithmetic; the rounding of IEEE doubles, the infinities and
  NaN are modelled in the section on doubles, for the ray-casting test and for the
  readings of the status overlay, where claims depend on them. Loop counters and
  cell numbers are natural numbers.

  A GeoJSON position of \<^verbatim>\<open>main.js\<close> is the array \<^verbatim>\<open>[lng, lat]\<close>, the pair
  \<open>(lng, lat)\<close> here; \<^verbatim>\<open>mobile.js\<close> hands \<^verbatim>\<open>[lat, lng]\<close> arrays to its
  point-in-polygon test, the pair \<open>(lat, lng)\<close>.
\<close>

type_synonym point = "real \<times> real"

section \<open>Ray casting\<close>

text \<open>
  The condition of the loop body of \<^verbatim>\<open>isPointInPolygon\<close> (main.js 801), for the
  test point \<open>(x, y)\<close>, the vertex \<open>(xi, yi)\<close> at index \<open>i\<close> and the vertex
  \<open>(xj, yj)\<close> at index \<open>j\<close>:
  \<^verbatim>\<open>((yi > y) !== (yj > y)) && (x < (xj - xi) * (y - yi) / (yj - yi) + xi)\<close>
\<close>

definition intersect :: "point \<Rightarrow> point \<Rightarrow> point \<Rightarrow> bool" where
  "intersect p vi vj =
     (case p of (x, y) \<Rightarrow> case vi of (xi, yi) \<Rightarrow> case vj of (xj, yj) \<Rightarrow>
        ((yi > y) \<noteq> (yj > y)) \<and> (x < (xj - xi) * (y - yi) / (yj - yi) + xi))"

text \<open>
  The loop \<^verbatim>\<open>for (let i = 0, j = polygon.length - 1; i < polygon.length; j = i++)\<close>
  with its state \<open>(i, j, inside)\<close>. For the empty polygon the source starts with
  \<open>j = -1\<close>, which is never read because the body does not run; the model starts
  with \<open>j = 0\<close> there.
\<close>

function rayLoop :: "point \<Rightarrow> point list \<Rightarrow> nat \<Rightarrow> nat \<Rightarrow> bool \<Rightarrow> bool" where
  "rayLoop p polygon i j inside =
     (if i < length polygon
      then rayLoop p polygon (i + 1) i
             (if intersect p (polygon ! i) (polygon ! j) then \<not> inside else inside)
      else inside)"
  by pat_completeness auto
termination
  by (relation "measure (\<lambda>(p, polygon, i, j, inside). length polygon - i)") auto

declare rayLoop.simps [simp del]

definition isPointInPolygon :: "point \<Rightarrow> point list \<Rightarrow> bool" where
  "isPointInPolygon p polygon = rayLoop p polygon 0 (length polygon - 1) False"

text \<open>
  \<^verbatim>\<open>isPointInPolygon\<close> of mobile.js (2467-2486) is the same loop on \<^verbatim>\<open>[lat, lng]\<close>
  arrays: \<^verbatim>\<open>x = point[1]\<close>, \<^verbatim>\<open>y = point[0]\<close>, and likewise for the vertices.
\<close>

definition intersect_mobile :: "point \<Rightarrow> point \<Rightarrow> point \<Rightarrow> bool" where
  "intersect_mobile p vi vj =
     (case p of (y, x) \<Rightarrow> case vi of (yi, xi) \<Rightarrow> case vj of (yj, xj) \<Rightarrow>
        ((yi > y) \<noteq> (yj > y)) \<and> (x < (xj - xi) * (y - yi) / (yj - yi) + xi))"

function rayLoop_mobile :: "point \<Rightarrow> point list \<Rightarrow> nat \<Rightarrow> nat \<Rightarrow> bool \<Rightarrow> bool" where
  "rayLoop_mobile p polygon i j inside =
     (if i < length polygon
      then rayLoop_mobile p polygon (i + 1) i
             (if intersect_mobile p (polygon ! i) (polygon ! j) then \<not> inside else inside)
      else inside)"
  by pat_completeness auto
termination
  by (relation "measure (\<lambda>(p, polygon, i, j, inside). length polygon - i)") auto

declare rayLoop_mobile.simps [simp del]

definition isPointInPolygon_mobile :: "point \<Rightarrow> point list \<Rightarrow> bool" where
  "isPointInPolygon_mobile p polygon =
     rayLoop_mobile p polygon 0 (length polygon - 1) False"

subsection \<open>The same loop with the division watched\<close>

text \<open>
  A JavaScript division by zero does not throw, it yields an infinity or NaN, which
  the real numbers do not have. To state that the loop never divides by zero, the
  loop is written once more with a division that reports a zero divisor as
  \<open>None\<close>; \<^verbatim>\<open>&&\<close> evaluates its right operand only when the left one is true.
\<close>

definition divide_checked :: "real \<Rightarrow> real \<Rightarrow> real option" where
  "divide_checked a b = (if b = 0 then None else Some (a / b))"

definition intersect_checked :: "point \<Rightarrow> point \<Rightarrow> point \<Rightarrow> bool option" where
  "intersect_checked p vi vj =
     (case p of (x, y) \<Rightarrow> case vi of (xi, yi) \<Rightarrow> case vj of (xj, yj) \<Rightarrow>
        if (yi > y) \<noteq> (yj > y)
        then (case divide_checked ((xj - xi) * (y - yi)) (yj - yi) of
                None \<Rightarrow> None
              | Some q \<Rightarrow> Some (x < q + xi))
        else Some False)"

function rayLoop_checked ::
  "point \<Rightarrow> point list \<Rightarrow> nat \<Rightarrow> nat \<Rightarrow> bool \<Rightarrow> bool option" where
  "rayLoop_checked p polygon i j inside =
     (if i < length polygon
      then (case intersect_checked p (polygon ! i) (polygon ! j) of
              None \<Rightarrow> None
            | Some c \<Rightarrow>
                rayLoop_checked p polygon (i + 1) i (if c then \<not> inside else inside))
      else Some inside)"
  by pat_completeness auto
termination
  by (relation "measure (\<lambda>(p, polygon, i, j, inside). length polygon - i)") auto

declare rayLoop_checked.simps [simp del]

definition isPointInPolygon_checked :: "point \<Rightarrow> point list \<Rightarrow> bool option" where
  "isPointInPolygon_checked p polygon =
     rayLoop_checked p polygon 0 (length polygon - 1) False"

definition intersect_mobile_checked :: "point \<Rightarrow> point \<Rightarrow> point \<Rightarrow> bool option" where
  "intersect_mobile_checked p vi vj =
     (case p of (y, x) \<Rightarrow> case vi of (yi, xi) \<Rightarrow> case vj of (yj, xj) \<Rightarrow>
        if (yi > y) \<noteq> (yj > y)
        then (case divide_checked ((xj - xi) * (y - yi)) (yj - yi) of
                None \<Rightarrow> None
              | Some q \<Rightarrow> Some (x < q + xi))
        else Some False)"

function rayLoop_mobile_checked ::
  "point \<Rightarrow> point list \<Rightarrow> nat \<Rightarrow> nat \<Rightarrow> bool \<Rightarrow> bool option" where
  "rayLoop_mobile_checked p polygon i j inside =
     (if i < length polygon
      then (case intersect_mobile_checked p (polygon ! i) (polygon ! j) of
              None \<Rightarrow> None
            | Some c \<Rightarrow>
                rayLoop_mobile_checked p polygon (i + 1) i
                  (if c then \<not> inside else inside))
      else Some inside)"
  by pat_completeness auto
termination
  by (relation "measure (\<lambda>(p, polygon, i, j, inside). length polygon - i)") auto

declare rayLoop_mobile_checked.simps [simp del]

definition isPointInPolygon_mobile_checked :: "point \<Rightarrow> point list \<Rightarrow> bool option" where
  "isPointInPolygon_mobile_checked p polygon =
     rayLoop_mobile_checked p polygon 0 (length polygon - 1) False"


subsection \<open>The edges the loop visits\<close>

text \<open>
  The pairs \<open>(polygon ! i, polygon ! j)\<close> in the order in which the loop reads them:
  the first vertex is paired with the last one, every later vertex with its
  predecessor. This list is only used to reason about the loop.
\<close>

definition edges :: "'a list \<Rightarrow> ('a \<times> 'a) list" where
  "edges ps = (if ps = [] then [] else zip ps (last ps # butlast ps))"

section \<open>IEEE doubles\<close>

text \<open>
  The numbers of the engine are IEEE 754 binary64 values. Where a claim depends on
  their rounding, a number is a \<open>double\<close>: a finite value, one of the two
  infinities, or NaN. The sign of zero is not modelled: the code modelled with
  doubles compares, adds and multiplies zeros, and never divides by one (lemma
  \<open>dsub_doubles_nonzero\<close>), so \<^verbatim>\<open>+0\<close> and \<^verbatim>\<open>-0\<close> behave alike in it.
\<close>

datatype double = Finite real | PlusInfinity | MinusInfinity | NotANumber

text \<open>
  \<open>pow2 e\<close> is the power of two with the integer exponent \<open>e\<close>, and
  \<open>exponent2 a\<close> is the binary exponent of a positive real \<open>a\<close>, the integer \<open>e\<close>
  with \<open>pow2 e \<le> a < pow2 (e + 1)\<close> (lemma \<open>exponent2_bounds\<close>), computed from bit
  lengths.
\<close>

definition exponent2 :: "real \<Rightarrow> int" where
  "exponent2 a = (if 1 \<le> a then bitlen \<lfloor>a\<rfloor> - 1 else - bitlen (\<lceil>1 / a\<rceil> - 1))"

definition pow2 :: "int \<Rightarrow> real" where
  "pow2 e = (if 0 \<le> e then 2 ^ nat e else 1 / 2 ^ nat (- e))"

definition round_half_even :: "real \<Rightarrow> int" where
  "round_half_even q =
     (let f = \<lfloor>q\<rfloor>; d = q - of_int f
      in if d < 1 / 2 then f else if 1 / 2 < d then f + 1 else if even f then f else f + 1)"

text \<open>
  Rounding to the nearest double, ties to even: 53 significant bits, the spacing
  \<open>pow2 (- 1074)\<close> of the subnormal numbers below \<open>pow2 (- 1022)\<close>, and the
  infinities when the rounded value reaches \<open>pow2 1024\<close>. A real \<open>r\<close> is a double
  when rounding leaves it unchanged.
\<close>

definition round_double :: "real \<Rightarrow> double" where
  "round_double r =
     (if r = 0 then Finite 0
      else (let e = max (exponent2 \<bar>r\<bar>) (- 1022);
                ulp = pow2 (e - 52);
                v = of_int (round_half_even (r / ulp)) * ulp
            in if pow2 1024 \<le> v then PlusInfinity
               else if v \<le> - pow2 1024 then MinusInfinity
               else Finite v))"

definition is_double :: "real \<Rightarrow> bool" where
  "is_double r = (round_double r = Finite r)"

text \<open>
  The operators \<^verbatim>\<open>-\<close> (unary and binary), \<^verbatim>\<open>+\<close>, \<^verbatim>\<open>*\<close>, \<^verbatim>\<open>/\<close> and \<^verbatim>\<open><\<close> on
  numbers: the exact result, rounded. A division by zero has the value NaN here (the
  engine gives an infinity or NaN, depending on the signs of the zeros); the
  crossing test below reaches its division with a nonzero divisor only.
\<close>

definition dpositive :: "double \<Rightarrow> bool" where
  "dpositive a = (case a of Finite r \<Rightarrow> 0 < r | PlusInfinity \<Rightarrow> True | _ \<Rightarrow> False)"

fun dneg :: "double \<Rightarrow> double" where
  "dneg (Finite a) = Finite (- a)"
| "dneg PlusInfinity = MinusInfinity"
| "dneg MinusInfinity = PlusInfinity"
| "dneg NotANumber = NotANumber"

fun dadd :: "double \<Rightarrow> double \<Rightarrow> double" where
  "dadd (Finite a) (Finite b) = round_double (a + b)"
| "dadd NotANumber _ = NotANumber"
| "dadd _ NotANumber = NotANumber"
| "dadd PlusInfinity MinusInfinity = NotANumber"
| "dadd MinusInfinity PlusInfinity = NotANumber"
| "dadd PlusInfinity _ = PlusInfinity"
| "dadd _ PlusInfinity = PlusInfinity"
| "dadd MinusInfinity _ = MinusInfinity"
| "dadd _ MinusInfinity = MinusInfinity"

definition dsub :: "double \<Rightarrow> double \<Rightarrow> double" where
  "dsub a b = dadd a (dneg b)"

fun dmul :: "double \<Rightarrow> double \<Rightarrow> double" where
  "dmul (Finite a) (Finite b) = round_double (a * b)"
| "dmul NotANumber _ = NotANumber"
| "dmul _ NotANumber = NotANumber"
| "dmul a b =
     (if a = Finite 0 \<or> b = Finite 0 then NotANumber
      else if dpositive a = dpositive b then PlusInfinity else MinusInfinity)"

fun ddiv :: "double \<Rightarrow> double \<Rightarrow> double" where
  "ddiv (Finite a) (Finite b) = (if b = 0 then NotANumber else round_double (a / b))"
| "ddiv NotANumber _ = NotANumber"
| "ddiv _ NotANumber = NotANumber"
| "ddiv (Finite a) _ = Finite 0"
| "ddiv a (Finite b) =
     (if b = 0 then NotANumber
      else if dpositive a = dpositive (Finite b) then PlusInfinity else MinusInfinity)"
| "ddiv _ _ = NotANumber"

fun dless :: "double \<Rightarrow> double \<Rightarrow> bool" where
  "dless (Finite a) (Finite b) = (a < b)"
| "dless NotANumber _ = False"
| "dless _ NotANumber = False"
| "dless MinusInfinity MinusInfinity = False"
| "dless MinusInfinity _ = True"
| "dless _ MinusInfinity = False"
| "dless PlusInfinity _ = False"
| "dless _ PlusInfinity = True"

subsection \<open>Ray casting in doubles\<close>

text \<open>
  The condition of the loop body of \<^verbatim>\<open>isPointInPolygon\<close> with every operation
  rounded, for coordinates that are doubles: the comparisons of the first conjunct
  are exact, the crossing abscissa \<^verbatim>\<open>(xj - xi) * (y - yi) / (yj - yi) + xi\<close> is
  computed with four roundings. \<open>intersect_double\<close> is the test of main.js,
  \<open>intersect_mobile_double\<close> the test of mobile.js on \<^verbatim>\<open>[lat, lng]\<close> arrays.
\<close>

definition intersect_double :: "point \<Rightarrow> point \<Rightarrow> point \<Rightarrow> bool" where
  "intersect_double p vi vj =
     (case p of (x, y) \<Rightarrow> case vi of (xi, yi) \<Rightarrow> case vj of (xj, yj) \<Rightarrow>
        ((yi > y) \<noteq> (yj > y))
        \<and> dless (Finite x)
             (dadd (ddiv (dmul (dsub (Finite xj) (Finite xi)) (dsub (Finite y) (Finite yi)))
                         (dsub (Finite yj) (Finite yi)))
                   (Finite xi)))"

definition intersect_mobile_double :: "point \<Rightarrow> point \<Rightarrow> point \<Rightarrow> bool" where
  "intersect_mobile_double p vi vj =
     (case p of (y, x) \<Rightarrow> case vi of (yi, xi) \<Rightarrow> case vj of (yj, xj) \<Rightarrow>
        ((yi > y) \<noteq> (yj > y))
        \<and> dless (Finite x)
             (dadd (ddiv (dmul (dsub (Finite xj) (Finite xi)) (dsub (Finite y) (Finite yi)))
                         (dsub (Finite yj) (Finite yi)))
                   (Finite xi)))"

text \<open>
  The loop of \<^verbatim>\<open>isPointInPolygon\<close> with the condition of its body as an argument;
  with \<open>intersect\<close> it is \<open>rayLoop\<close> (lemma \<open>rayLoop_With\<close>).
\<close>

function rayLoopWith ::
  "(point \<Rightarrow> point \<Rightarrow> point \<Rightarrow> bool) \<Rightarrow> point \<Rightarrow> point list \<Rightarrow> nat \<Rightarrow> nat \<Rightarrow> bool \<Rightarrow> bool" where
  "rayLoopWith test p polygon i j inside =
     (if i < length polygon
      then rayLoopWith test p polygon (i + 1) i
             (if test p (polygon ! i) (polygon ! j) then \<not> inside else inside)
      else inside)"
  by pat_completeness auto
termination
  by (relation "measure (\<lambda>(test, p, polygon, i, j, inside). length polygon - i)") auto

declare rayLoopWith.simps [simp del]

definition isPointInPolygon_double :: "point \<Rightarrow> point list \<Rightarrow> bool" where
  "isPointInPolygon_double p polygon =
     rayLoopWith intersect_double p polygon 0 (length polygon - 1) False"

definition isPointInPolygon_mobile_double :: "point \<Rightarrow> point list \<Rightarrow> bool" where
  "isPointInPolygon_mobile_double p polygon =
     rayLoopWith intersect_mobile_double p polygon 0 (length polygon - 1) False"

section \<open>Bounds of a ring\<close>

record latlng =
  lat :: real
  lng :: real

text \<open>The fields \<^verbatim>\<open>min\<close> and \<^verbatim>\<open>max\<close> of the source are \<open>min_pt\<close> and \<open>max_pt\<close>.\<close>

record bounds =
  min_pt :: latlng
  max_pt :: latlng
  center :: latlng

text \<open>
  \<^verbatim>\<open>getBoundsFromCoordinates\<close> (main.js 747-767, the same text in mobile.js
  2443-2462). On an empty array \<^verbatim>\<open>coords[0][1]\<close> throws a TypeError, the result
  \<open>None\<close>.
\<close>

definition getBoundsFromCoordinates :: "point list \<Rightarrow> bounds option" where
  "getBoundsFromCoordinates coords =
     (case coords of
        [] \<Rightarrow> None
      | c0 # _ \<Rightarrow>
          (case fold (\<lambda>coord (minLat, maxLat, minLng, maxLng).
                        case coord of (cLng, cLat) \<Rightarrow>
                          (min minLat cLat, max maxLat cLat, min minLng cLng, max maxLng cLng))
                     coords (snd c0, snd c0, fst c0, fst c0) of
             (minLat, maxLat, minLng, maxLng) \<Rightarrow>
               Some \<lparr>min_pt = \<lparr>lat = minLat, lng = minLng\<rparr>,
                     max_pt = \<lparr>lat = maxLat, lng = maxLng\<rparr>,
                     center = \<lparr>lat = (minLat + maxLat) / 2, lng = (minLng + maxLng) / 2\<rparr>\<rparr>))"

section \<open>Degrees per meter and cell counts\<close>

text \<open>\<^verbatim>\<open>Math.radians\<close> is defined in main.js 20-23.\<close>

definition radians :: "real \<Rightarrow> real" where
  "radians degrees = degrees * pi / 180"

definition latDegreePerMeter :: real where
  "latDegreePerMeter = 1 / 111320"

definition lngDegreePerMeter :: "bounds \<Rightarrow> real" where
  "lngDegreePerMeter bounds = 1 / (111320 * cos (radians (lat (center bounds))))"

definition lngDegreePerMeter_mobile :: "bounds \<Rightarrow> real" where
  "lngDegreePerMeter_mobile bounds = 1 / (111320 * cos (pi / 180 * lat (center bounds)))"

text \<open>
  \<^verbatim>\<open>gridSizeMeters\<close> is a local constant of \<^verbatim>\<open>generateFieldGrid\<close>, 1 in main.js
  and 5 in mobile.js (the second argument of the call in mobile.js 561 is not
  read). The definitions below take it as an argument; the source's functions are
  \<open>generateFieldGrid 1\<close> and \<open>generateFieldGrid_mobile 5\<close>. A cell size of 0
  would make the source divide by zero (its counts would be \<^verbatim>\<open>Infinity\<close> or
  \<^verbatim>\<open>NaN\<close>), which the reals do not model; the claims take a positive cell size.
\<close>

definition gridSizeLat :: "real \<Rightarrow> real" where
  "gridSizeLat gridSizeMeters = gridSizeMeters * latDegreePerMeter"

definition gridSizeLng :: "real \<Rightarrow> bounds \<Rightarrow> real" where
  "gridSizeLng gridSizeMeters bounds = gridSizeMeters * lngDegreePerMeter bounds"

definition gridSizeLng_mobile :: "real \<Rightarrow> bounds \<Rightarrow> real" where
  "gridSizeLng_mobile gridSizeMeters bounds = gridSizeMeters * lngDegreePerMeter_mobile bounds"

text \<open>
  \<^verbatim>\<open>Math.ceil\<close> of the quotient; the loops \<^verbatim>\<open>for (let i = 0; i < latCells; i++)\<close>
  run \<open>nat \<lceil>\<dots>\<rceil>\<close> times, none when the ceiling is not positive.
\<close>

definition latCells :: "real \<Rightarrow> bounds \<Rightarrow> nat" where
  "latCells gridSizeMeters bounds =
     nat \<lceil>(lat (max_pt bounds) - lat (min_pt bounds)) / gridSizeLat gridSizeMeters\<rceil>"

definition lngCells :: "real \<Rightarrow> bounds \<Rightarrow> nat" where
  "lngCells gridSizeMeters bounds =
     nat \<lceil>(lng (max_pt bounds) - lng (min_pt bounds)) / gridSizeLng gridSizeMeters bounds\<rceil>"

definition lngCells_mobile :: "real \<Rightarrow> bounds \<Rightarrow> nat" where
  "lngCells_mobile gridSizeMeters bounds =
     nat \<lceil>(lng (max_pt bounds) - lng (min_pt bounds))
            / gridSizeLng_mobile gridSizeMeters bounds\<rceil>"

section \<open>Layers and grid cells\<close>

text \<open>
  A Leaflet polygon layer: its \<^verbatim>\<open>[lat, lng]\<close> points, its path options and the cell
  number shown by its popup (\<open>None\<close> before \<^verbatim>\<open>bindPopup\<close>). \<^verbatim>\<open>setStyle\<close> overwrites
  the options it is given and keeps the others.
\<close>

record pathOptions =
  color :: string
  weight :: real
  opacity :: real
  fillColor :: string
  fillOpacity :: real
  className :: string

record polygonLayer =
  latlngs :: "point list"
  options :: pathOptions
  popup :: "nat option"

record gridCell =
  number :: nat
  layer :: polygonLayer

definition setStyle :: "(pathOptions \<Rightarrow> pathOptions) \<Rightarrow> polygonLayer \<Rightarrow> polygonLayer" where
  "setStyle style l = l\<lparr>options := style (options l)\<rparr>"

definition bindPopup :: "nat \<Rightarrow> polygonLayer \<Rightarrow> polygonLayer" where
  "bindPopup n l = l\<lparr>popup := Some n\<rparr>"

section \<open>Membership of a cell, main.js\<close>

text \<open>
  \<^verbatim>\<open>getPolygonCenter\<close> (main.js 812-823) averages the two components of all
  positions of the ring, the closing point included.
\<close>

definition getPolygonCenter :: "point list \<Rightarrow> point" where
  "getPolygonCenter coords =
     (case fold (\<lambda>coord (sumLat, sumLng). (sumLat + fst coord, sumLng + snd coord))
                coords (0, 0) of
        (sumLat, sumLng) \<Rightarrow> (sumLat / real (length coords), sumLng / real (length coords)))"

text \<open>
  \<^verbatim>\<open>isPolygonWithinField\<close> (main.js 772-788), on the rings
  \<^verbatim>\<open>cellGeoJSON.coordinates[0]\<close> and \<^verbatim>\<open>fieldGeoJSON.coordinates[0]\<close>: the loop returns
  true at the first corner of the cell inside the field; otherwise the result is
  whether the center of the field is inside the cell.
\<close>

definition isPolygonWithinField :: "point list \<Rightarrow> point list \<Rightarrow> bool" where
  "isPolygonWithinField cellCoords fieldCoords =
     (if list_ex (\<lambda>coord. isPointInPolygon coord fieldCoords) cellCoords then True
      else isPointInPolygon (getPolygonCenter fieldCoords) cellCoords)"

section \<open>The grid, main.js\<close>

text \<open>A GeoJSON geometry; \<open>None\<close> is a missing \<^verbatim>\<open>coordinates\<close> field.\<close>

record geometry =
  coordinates :: "point list list option"

datatype 'a outcome = ReturnsNull | ThrowsTypeError | Returns 'a

text \<open>
  The number of the cell at row \<open>i\<close> and column \<open>j\<close>,
  \<^verbatim>\<open>const cellNumber = i * lngCells + j + 1\<close> (main.js 673, mobile.js 2424), with
  the value of \<^verbatim>\<open>lngCells\<close> as the argument \<open>columns\<close>.
\<close>

definition cellNumber :: "nat \<Rightarrow> nat \<Rightarrow> nat \<Rightarrow> nat" where
  "cellNumber i j columns = i * columns + j + 1"

text \<open>
  The body of the inner loop of \<^verbatim>\<open>generateFieldGrid\<close> (main.js 634-684) at the
  indices \<open>i\<close> and \<open>j\<close>: the cell pushed to \<^verbatim>\<open>gridCells\<close>, or \<open>None\<close> when the
  cell is not within the field.
\<close>

definition gridCellAt :: "real \<Rightarrow> point list \<Rightarrow> bounds \<Rightarrow> nat \<Rightarrow> nat \<Rightarrow> gridCell option" where
  "gridCellAt gridSizeMeters coords bounds i j =
     (let cellLat1 = lat (min_pt bounds) + real i * gridSizeLat gridSizeMeters;
          cellLng1 = lng (min_pt bounds) + real j * gridSizeLng gridSizeMeters bounds;
          cellLat2 = lat (min_pt bounds) + real (i + 1) * gridSizeLat gridSizeMeters;
          cellLng2 = lng (min_pt bounds) + real (j + 1) * gridSizeLng gridSizeMeters bounds;
          cellCoordsLeaflet =
            [(cellLat1, cellLng1), (cellLat2, cellLng1), (cellLat2, cellLng2),
             (cellLat1, cellLng2), (cellLat1, cellLng1)];
          cellPolygon =
            \<lparr>latlngs = cellCoordsLeaflet,
             options = \<lparr>color = ''#94a3b8'', weight = 0.6, opacity = 0.7,
                        fillColor = ''#000000'', fillOpacity = 0.0,
                        className = ''grid-cell''\<rparr>,
             popup = None\<rparr>;
          cellCoordsLngLat =
            [(cellLng1, cellLat1), (cellLng1, cellLat2), (cellLng2, cellLat2),
             (cellLng2, cellLat1), (cellLng1, cellLat1)]
      in if isPolygonWithinField cellCoordsLngLat coords
         then (let n = cellNumber i j (lngCells gridSizeMeters bounds)
               in Some \<lparr>number = n, layer = bindPopup n cellPolygon\<rparr>)
         else None)"

text \<open>
  \<^verbatim>\<open>generateFieldGrid\<close> (main.js 607-689). The result is the array \<^verbatim>\<open>gridCells\<close>,
  emptied at the start and filled in loop order; the returned layer group holds the
  same layers.
\<close>

definition generateFieldGrid :: "real \<Rightarrow> geometry option \<Rightarrow> gridCell list outcome" where
  "generateFieldGrid gridSizeMeters geojson =
     (case geojson of
        None \<Rightarrow> ReturnsNull
      | Some g \<Rightarrow>
          (case coordinates g of
             None \<Rightarrow> ReturnsNull
           | Some [] \<Rightarrow> ReturnsNull
           | Some (coords # _) \<Rightarrow>
               (case getBoundsFromCoordinates coords of
                  None \<Rightarrow> ThrowsTypeError
                | Some bounds \<Rightarrow>
                    Returns
                      (concat (map (\<lambda>i. List.map_filter
                                           (\<lambda>j. gridCellAt gridSizeMeters coords bounds i j)
                                           [0..<lngCells gridSizeMeters bounds])
                                   [0..<latCells gridSizeMeters bounds])))))"

section \<open>The grid, mobile.js\<close>

text \<open>
  Modelled from the spec: \<^verbatim>\<open>L.polygon(...).getBounds().getCenter()\<close> belongs to the
  Leaflet library, which is not under src/. The spec (4.4) names the test point the
  geometric center of the cell; Leaflet returns the midpoint of the bounding box of
  the polygon's points, as a \<^verbatim>\<open>(lat, lng)\<close> pair.
\<close>

fun getCenter :: "point list \<Rightarrow> point" where
  "getCenter (p # ps) =
     (let south = fold min (map fst ps) (fst p);
          north = fold max (map fst ps) (fst p);
          west = fold min (map snd ps) (snd p);
          east = fold max (map snd ps) (snd p)
      in ((south + north) / 2, (west + east) / 2))"

text \<open>
  The body of the inner loop of \<^verbatim>\<open>generateFieldGrid\<close> (mobile.js 2406-2433): the
  layer added to the group, or \<open>None\<close>.
\<close>

definition gridCellAt_mobile ::
  "real \<Rightarrow> point list \<Rightarrow> bounds \<Rightarrow> nat \<Rightarrow> nat \<Rightarrow> polygonLayer option" where
  "gridCellAt_mobile gridSizeMeters coords bounds i j =
     (let cellLat1 = lat (min_pt bounds) + real i * gridSizeLat gridSizeMeters;
          cellLng1 = lng (min_pt bounds) + real j * gridSizeLng_mobile gridSizeMeters bounds;
          cellLat2 = lat (min_pt bounds) + real (i + 1) * gridSizeLat gridSizeMeters;
          cellLng2 = lng (min_pt bounds) + real (j + 1) * gridSizeLng_mobile gridSizeMeters bounds;
          cellCenter =
            getCenter [(cellLat1, cellLng1), (cellLat2, cellLng1), (cellLat2, cellLng2),
                       (cellLat1, cellLng2)]
      in if isPointInPolygon_mobile (fst cellCenter, snd cellCenter)
              (map (\<lambda>c. (snd c, fst c)) coords)
         then (let cellPolygon =
                     \<lparr>latlngs = [(cellLat1, cellLng1), (cellLat2, cellLng1),
                                 (cellLat2, cellLng2), (cellLat1, cellLng2)],
                      options = \<lparr>color = ''#6366f1'', weight = 1, opacity = 0.8,
                                 fillColor = ''#6366f1'', fillOpacity = 0.1,
                                 className = ''grid-cell''\<rparr>,
                      popup = None\<rparr>;
                   n = cellNumber i j (lngCells_mobile gridSizeMeters bounds)
               in Some (bindPopup n cellPolygon))
         else None)"

definition generateFieldGrid_mobile ::
  "real \<Rightarrow> geometry option \<Rightarrow> polygonLayer list outcome" where
  "generateFieldGrid_mobile gridSizeMeters geojson =
     (case geojson of
        None \<Rightarrow> ReturnsNull
      | Some g \<Rightarrow>
          (case coordinates g of
             None \<Rightarrow> ReturnsNull
           | Some [] \<Rightarrow> ReturnsNull
           | Some (coords # _) \<Rightarrow>
               (case getBoundsFromCoordinates coords of
                  None \<Rightarrow> ThrowsTypeError
                | Some bounds \<Rightarrow>
                    Returns
                      (concat (map (\<lambda>i. List.map_filter
                                           (\<lambda>j. gridCellAt_mobile gridSizeMeters coords bounds i j)
                                           [0..<lngCells_mobile gridSizeMeters bounds])
                                   [0..<latCells gridSizeMeters bounds])))))"


section \<open>Status overlay, main.js\<close>

text \<open>
  A value of the snapshot, as a JSON document or the database client delivers it;
  \<open>JUndefined\<close> is a missing property. The properties of an object are listed
  with their keys, the first entry of a key being its value.
\<close>

datatype jsval =
    JUndefined
  | JNull
  | JBool bool
  | JNumber double
  | JString string
  | JArray "jsval list"
  | JObject "(string \<times> jsval) list"

subsection \<open>The conversion \<^verbatim>\<open>Number(...)\<close>\<close>

text \<open>
  \<^verbatim>\<open>Number\<close> applied to a string (ECMAScript \<^verbatim>\<open>StringToNumber\<close>), for strings of
  characters below code point 256: white space is trimmed; the empty string is 0;
  a hexadecimal, octal or binary literal has no sign; a decimal literal has an
  optional sign, digits with an optional fraction (one of the two digit sequences
  may be empty) or \<^verbatim>\<open>Infinity\<close>, and an optional exponent; everything else is NaN.
  The value of a literal is rounded to a double.
\<close>

definition isStrWhiteSpaceChar :: "char \<Rightarrow> bool" where
  "isStrWhiteSpaceChar c =
     (c \<in> set [CHR 0x09, CHR 0x0A, CHR 0x0B, CHR 0x0C, CHR 0x0D, CHR 0x20, CHR 0xA0])"

definition trimString :: "string \<Rightarrow> string" where
  "trimString s = rev (dropWhile isStrWhiteSpaceChar (rev (dropWhile isStrWhiteSpaceChar s)))"

definition digitValue :: "char \<Rightarrow> nat option" where
  "digitValue =
     map_of [(CHR ''0'', 0), (CHR ''1'', 1), (CHR ''2'', 2), (CHR ''3'', 3), (CHR ''4'', 4),
             (CHR ''5'', 5), (CHR ''6'', 6), (CHR ''7'', 7), (CHR ''8'', 8), (CHR ''9'', 9),
             (CHR ''a'', 10), (CHR ''b'', 11), (CHR ''c'', 12), (CHR ''d'', 13), (CHR ''e'', 14),
             (CHR ''f'', 15), (CHR ''A'', 10), (CHR ''B'', 11), (CHR ''C'', 12), (CHR ''D'', 13),
             (CHR ''E'', 14), (CHR ''F'', 15)]"

definition isDigit :: "nat \<Rightarrow> char \<Rightarrow> bool" where
  "isDigit base c = (case digitValue c of None \<Rightarrow> False | Some d \<Rightarrow> d < base)"

definition digitsValue :: "nat \<Rightarrow> string \<Rightarrow> nat" where
  "digitsValue base ds = foldl (\<lambda>a c. a * base + the (digitValue c)) 0 ds"

definition nonDecimalIntegerLiteral :: "string \<Rightarrow> real option" where
  "nonDecimalIntegerLiteral s =
     (case s of
        z # x # ds \<Rightarrow>
          (let base = (if x = CHR ''x'' \<or> x = CHR ''X'' then 16
                       else if x = CHR ''o'' \<or> x = CHR ''O'' then 8
                       else if x = CHR ''b'' \<or> x = CHR ''B'' then 2 else 0)
           in if z = CHR ''0'' \<and> base \<noteq> 0 \<and> ds \<noteq> [] \<and> list_all (isDigit base) ds
              then Some (real (digitsValue base ds)) else None)
      | _ \<Rightarrow> None)"

definition exponentPart :: "string \<Rightarrow> int option" where
  "exponentPart s =
     (case s of
        [] \<Rightarrow> Some 0
      | e # t \<Rightarrow>
          if e = CHR ''e'' \<or> e = CHR ''E''
          then (let neg = (case t of c # _ \<Rightarrow> c = CHR ''-'' | [] \<Rightarrow> False);
                    ds = (case t of c # u \<Rightarrow> if c = CHR ''+'' \<or> c = CHR ''-'' then u else t
                                  | [] \<Rightarrow> [])
                in if ds \<noteq> [] \<and> list_all (isDigit 10) ds
                   then Some (if neg then - int (digitsValue 10 ds) else int (digitsValue 10 ds))
                   else None)
          else None)"

definition strUnsignedDecimalLiteral :: "string \<Rightarrow> double option" where
  "strUnsignedDecimalLiteral s =
     (if s = ''Infinity'' then Some PlusInfinity
      else (let ip = takeWhile (isDigit 10) s;
                r1 = dropWhile (isDigit 10) s;
                dot = (case r1 of c # _ \<Rightarrow> c = CHR ''.'' | [] \<Rightarrow> False);
                fp = (if dot then takeWhile (isDigit 10) (tl r1) else []);
                r2 = (if dot then dropWhile (isDigit 10) (tl r1) else r1)
            in if ip = [] \<and> fp = [] then None
               else (case exponentPart r2 of
                       None \<Rightarrow> None
                     | Some e \<Rightarrow>
                         Some (round_double
                                 (real (digitsValue 10 (ip @ fp))
                                  * (if 0 \<le> e then 10 ^ nat e else 1 / 10 ^ nat (- e))
                                  / 10 ^ length fp)))))"

definition strDecimalLiteral :: "string \<Rightarrow> double option" where
  "strDecimalLiteral s =
     (case s of
        c # t \<Rightarrow>
          if c = CHR ''+'' then strUnsignedDecimalLiteral t
          else if c = CHR ''-'' then map_option dneg (strUnsignedDecimalLiteral t)
          else strUnsignedDecimalLiteral s
      | [] \<Rightarrow> None)"

definition StringToNumber :: "string \<Rightarrow> double" where
  "StringToNumber str =
     (let s = trimString str
      in if s = [] then Finite 0
         else (case nonDecimalIntegerLiteral s of
                 Some n \<Rightarrow> round_double n
               | None \<Rightarrow>
                   (case strDecimalLiteral s of Some d \<Rightarrow> d | None \<Rightarrow> NotANumber)))"

text \<open>
  \<^verbatim>\<open>Number\<close> applied to an object first converts it to a primitive. A plain object
  becomes the string \<^verbatim>\<open>[object Object]\<close>, which is NaN; an array becomes the
  strings of its elements joined by commas (\<^verbatim>\<open>null\<close> and a missing element give
  the empty string), so the empty array is 0, an array of one element is the number
  of that element's string and a longer array is NaN. An object with a property
  \<^verbatim>\<open>toString\<close> of its own (which in a snapshot is never a function) cannot be
  converted: \<^verbatim>\<open>Number\<close> throws a TypeError, for the object itself and for an
  array that has it as an element.
\<close>

fun toStringThrows :: "jsval \<Rightarrow> bool" where
  "toStringThrows (JArray vs) = list_ex toStringThrows vs"
| "toStringThrows (JObject fs) = (''toString'' \<in> set (map fst fs))"
| "toStringThrows JUndefined = False"
| "toStringThrows JNull = False"
| "toStringThrows (JBool b) = False"
| "toStringThrows (JNumber d) = False"
| "toStringThrows (JString s) = False"

text \<open>
  The number of the string of a value that is the only element of an array. The
  string of a number converts back to that number.
\<close>

fun joinedNumber :: "jsval \<Rightarrow> double" where
  "joinedNumber JUndefined = Finite 0"
| "joinedNumber JNull = Finite 0"
| "joinedNumber (JBool b) = NotANumber"
| "joinedNumber (JNumber d) = d"
| "joinedNumber (JString s) = StringToNumber s"
| "joinedNumber (JArray []) = Finite 0"
| "joinedNumber (JArray [v]) = joinedNumber v"
| "joinedNumber (JArray (v # w # vs)) = NotANumber"
| "joinedNumber (JObject fs) = NotANumber"

text \<open>\<open>None\<close> is the thrown TypeError.\<close>

fun toNumber :: "jsval \<Rightarrow> double option" where
  "toNumber JUndefined = Some NotANumber"
| "toNumber JNull = Some (Finite 0)"
| "toNumber (JBool b) = Some (Finite (if b then 1 else 0))"
| "toNumber (JNumber d) = Some d"
| "toNumber (JString s) = Some (StringToNumber s)"
| "toNumber (JArray vs) =
     (if toStringThrows (JArray vs) then None else Some (joinedNumber (JArray vs)))"
| "toNumber (JObject fs) = (if toStringThrows (JObject fs) then None else Some NotANumber)"

text \<open>
  The reading \<^verbatim>\<open>cell.moisture\<close> of \<^verbatim>\<open>const cell = snapshot.cells[key] || {}\<close>: a
  falsy value is replaced by the empty object; a property of a value other than a
  plain object is looked up in its prototype, where \<^verbatim>\<open>moisture\<close> is undefined.
\<close>

fun truthy :: "jsval \<Rightarrow> bool" where
  "truthy JUndefined = False"
| "truthy JNull = False"
| "truthy (JBool b) = b"
| "truthy (JNumber d) = (d \<noteq> Finite 0 \<and> d \<noteq> NotANumber)"
| "truthy (JString s) = (s \<noteq> [])"
| "truthy (JArray vs) = True"
| "truthy (JObject fs) = True"

definition moistureOf :: "jsval \<Rightarrow> jsval" where
  "moistureOf v =
     (let cell = (if truthy v then v else JObject [])
      in case cell of
           JObject fs \<Rightarrow> (case map_of fs ''moisture'' of Some m \<Rightarrow> m | None \<Rightarrow> JUndefined)
         | _ \<Rightarrow> JUndefined)"

subsection \<open>Restyling\<close>

text \<open>
  The entries of the mapping \<^verbatim>\<open>{ [cellNumber]: { status, value } }\<close>. The field
  \<^verbatim>\<open>value\<close> of the source is \<open>val\<close>.
\<close>

record cellStatus =
  status :: string
  val :: double

text \<open>
  \<^verbatim>\<open>updateGridStylesFromMapping\<close> (main.js 701-719) on the array \<^verbatim>\<open>gridCells\<close>,
  which it returns restyled. \<open>restyle\<close> is the callback of \<^verbatim>\<open>gridCells.forEach\<close>;
  a missing entry of the mapping takes its branch \<^verbatim>\<open>if (!m)\<close>. \<open>None\<close> is a
  missing mapping, for which the function returns at once.
\<close>

definition restyle :: "(nat \<rightharpoonup> cellStatus) \<Rightarrow> gridCell \<Rightarrow> gridCell" where
  "restyle mapping c =
     (case mapping (number c) of
        None \<Rightarrow>
          c\<lparr>layer := setStyle (\<lambda>opts. opts\<lparr>fillOpacity := 0.0, color := ''#94a3b8''\<rparr>)
                        (layer c)\<rparr>
      | Some m \<Rightarrow>
          if status m = ''critical''
          then c\<lparr>layer := setStyle (\<lambda>opts. opts\<lparr>fillColor := ''#ef4444'', fillOpacity := 0.35,
                                                color := ''#b91c1c'', weight := 1.2\<rparr>)
                             (layer c)\<rparr>
          else if status m = ''warn''
          then c\<lparr>layer := setStyle (\<lambda>opts. opts\<lparr>fillColor := ''#f59e0b'', fillOpacity := 0.25,
                                                color := ''#b45309'', weight := 1.0\<rparr>)
                             (layer c)\<rparr>
          else c\<lparr>layer := setStyle (\<lambda>opts. opts\<lparr>fillColor := ''#22c55e'', fillOpacity := 0.15,
                                                color := ''#15803d'', weight := 0.8\<rparr>)
                             (layer c)\<rparr>)"

definition updateGridStylesFromMapping ::
  "(nat \<rightharpoonup> cellStatus) option \<Rightarrow> gridCell list \<Rightarrow> gridCell list" where
  "updateGridStylesFromMapping mapping gridCells =
     (case mapping of
        None \<Rightarrow> gridCells
      | Some mp \<Rightarrow> map (restyle mp) gridCells)"

text \<open>
  The status computed in \<^verbatim>\<open>ingestGridDataFromRTDB\<close> (main.js 730-735):
  \<^verbatim>\<open>let status = 'ok'; if (!isNaN(moisture)) { if (moisture < 30) status = 'critical';
  else if (moisture < 40) status = 'warn'; }\<close>.
\<close>

definition statusOf :: "double \<Rightarrow> string" where
  "statusOf moisture =
     (if moisture \<noteq> NotANumber
      then (if dless moisture (Finite 30) then ''critical''
            else if dless moisture (Finite 40) then ''warn'' else ''ok'')
      else ''ok'')"

text \<open>
  \<^verbatim>\<open>ingestGridDataFromRTDB\<close> (main.js 722-742). The snapshot is \<open>None\<close> when it or
  its field \<^verbatim>\<open>cells\<close> is missing or falsy; otherwise it lists, in the order of
  \<^verbatim>\<open>Object.keys\<close>, each key as the number \<^verbatim>\<open>Number(key)\<close> with the value stored
  under it (keys that are not natural numbers match no cell and are left out). A
  later entry for the same number overwrites the earlier one. The callback of
  \<^verbatim>\<open>forEach\<close> builds the mapping entry by entry; when \<^verbatim>\<open>Number\<close> throws, the
  exception leaves the loop and is caught by the \<^verbatim>\<open>catch\<close> of the function, which
  logs it: \<^verbatim>\<open>updateGridStylesFromMapping\<close> is not called and the cells stay as they
  are. \<open>ingestMapping\<close> is \<open>None\<close> in that case.
\<close>

definition ingestMapping :: "(nat \<times> jsval) list \<Rightarrow> (nat \<rightharpoonup> cellStatus) option" where
  "ingestMapping cells =
     fold (\<lambda>(key, cell) acc.
             case acc of
               None \<Rightarrow> None
             | Some mapping \<Rightarrow>
                 (case toNumber (moistureOf cell) of
                    None \<Rightarrow> None
                  | Some moisture \<Rightarrow>
                      Some (mapping(key \<mapsto> \<lparr>status = statusOf moisture, val = moisture\<rparr>))))
          cells (Some Map.empty)"

definition ingestGridDataFromRTDB ::
  "(nat \<times> jsval) list option \<Rightarrow> gridCell list \<Rightarrow> gridCell list" where
  "ingestGridDataFromRTDB snapshot gridCells =
     (case snapshot of
        None \<Rightarrow> gridCells
      | Some cells \<Rightarrow>
          (case ingestMapping cells of
             None \<Rightarrow> gridCells
           | Some mapping \<Rightarrow> updateGridStylesFromMapping (Some mapping) gridCells))"


section \<open>Words for the claims\<close>

text \<open>The list a call returned, empty when it returned null or threw.\<close>

fun returned :: "'a list outcome \<Rightarrow> 'a list" where
  "returned (Returns xs) = xs"
| "returned ReturnsNull = []"
| "returned ThrowsTypeError = []"

text \<open>
  The lines of the candidate grid: in the loop body at \<open>i\<close> and \<open>j\<close>,
  \<^verbatim>\<open>cellLat1\<close> is \<open>cellLat i\<close>, \<^verbatim>\<open>cellLat2\<close> is \<open>cellLat (i + 1)\<close>, and likewise
  for the longitudes.
\<close>

definition cellLat :: "real \<Rightarrow> bounds \<Rightarrow> nat \<Rightarrow> real" where
  "cellLat gridSizeMeters bounds i = lat (min_pt bounds) + real i * gridSizeLat gridSizeMeters"

definition cellLng :: "real \<Rightarrow> bounds \<Rightarrow> nat \<Rightarrow> real" where
  "cellLng gridSizeMeters bounds j =
     lng (min_pt bounds) + real j * gridSizeLng gridSizeMeters bounds"

definition cellLng_mobile :: "real \<Rightarrow> bounds \<Rightarrow> nat \<Rightarrow> real" where
  "cellLng_mobile gridSizeMeters bounds j =
     lng (min_pt bounds) + real j * gridSizeLng_mobile gridSizeMeters bounds"

text \<open>
  The test in the words of the spec (4.4): one test point, the geometric center of
  the cell, and the ray-casting test of that point against the ring.
\<close>

definition centerIncluded :: "real \<Rightarrow> real \<Rightarrow> real \<Rightarrow> real \<Rightarrow> point list \<Rightarrow> bool" where
  "centerIncluded lat1 lng1 lat2 lng2 ring =
     isPointInPolygon ((lng1 + lng2) / 2, (lat1 + lat2) / 2) ring"

text \<open>
  The test of \<^verbatim>\<open>isPolygonWithinField\<close> written out for a cell rectangle: one of the
  corners is inside the ring, or the average of the ring's positions is inside the
  cell.
\<close>

definition cornerIncluded :: "real \<Rightarrow> real \<Rightarrow> real \<Rightarrow> real \<Rightarrow> point list \<Rightarrow> bool" where
  "cornerIncluded lat1 lng1 lat2 lng2 ring =
     (isPointInPolygon (lng1, lat1) ring \<or> isPointInPolygon (lng1, lat2) ring
      \<or> isPointInPolygon (lng2, lat2) ring \<or> isPointInPolygon (lng2, lat1) ring
      \<or> isPointInPolygon (getPolygonCenter ring)
           [(lng1, lat1), (lng1, lat2), (lng2, lat2), (lng2, lat1), (lng1, lat1)])"

text \<open>
  The styles \<^verbatim>\<open>updateGridStylesFromMapping\<close> sets as the last case of its status
  chain (any status other than \<^verbatim>\<open>'critical'\<close> and \<^verbatim>\<open>'warn'\<close>) and for a cell
  without an entry.
\<close>

definition okStyle :: "pathOptions \<Rightarrow> pathOptions" where
  "okStyle opts =
     opts\<lparr>fillColor := ''#22c55e'', fillOpacity := 0.15, color := ''#15803d'', weight := 0.8\<rparr>"

definition noEntryStyle :: "pathOptions \<Rightarrow> pathOptions" where
  "noEntryStyle opts = opts\<lparr>fillOpacity := 0.0, color := ''#94a3b8''\<rparr>"

text \<open>
  The styles of the statuses \<^verbatim>\<open>'critical'\<close> and \<^verbatim>\<open>'warn'\<close>, and the style
  \<^verbatim>\<open>updateGridStylesFromMapping\<close> sets for a status.
\<close>

definition criticalStyle :: "pathOptions \<Rightarrow> pathOptions" where
  "criticalStyle opts =
     opts\<lparr>fillColor := ''#ef4444'', fillOpacity := 0.35, color := ''#b91c1c'', weight := 1.2\<rparr>"

definition warnStyle :: "pathOptions \<Rightarrow> pathOptions" where
  "warnStyle opts =
     opts\<lparr>fillColor := ''#f59e0b'', fillOpacity := 0.25, color := ''#b45309'', weight := 1.0\<rparr>"

definition statusStyle :: "string \<Rightarrow> pathOptions \<Rightarrow> pathOptions" where
  "statusStyle s =
     (if s = ''critical'' then criticalStyle else if s = ''warn'' then warnStyle else okStyle)"

text \<open>A point whose two coordinates are doubles.\<close>

definition double_point :: "point \<Rightarrow> bool" where
  "double_point p = (is_double (fst p) \<and> is_double (snd p))"

section \<open>Example rings\<close>

text \<open>
  Rings around the equator, with coordinates in units of \<open>1 / 111320\<close> degree
  (one meter of latitude). The square and the triangle have the same bounds.
\<close>

definition example_square :: "point list" where
  "example_square =
     [(0, - 1 / 111320), (2 / 111320, - 1 / 111320), (2 / 111320, 1 / 111320),
      (0, 1 / 111320), (0, - 1 / 111320)]"

definition example_triangle :: "point list" where
  "example_triangle =
     [(0, - 1 / 111320), (2 / 111320, - 1 / 111320), (0, 1 / 111320), (0, - 1 / 111320)]"

definition example_bounds :: bounds where
  "example_bounds =
     \<lparr>min_pt = \<lparr>lat = - 1 / 111320, lng = 0\<rparr>,
      max_pt = \<lparr>lat = 1 / 111320, lng = 2 / 111320\<rparr>,
      center = \<lparr>lat = 0, lng = 1 / 111320\<rparr>\<rparr>"

text \<open>A right triangle with legs of 3 m and 4 m, and its bounds.\<close>

definition example_field :: "point list" where
  "example_field =
     [(0, - 2 / 111320), (3 / 111320, - 2 / 111320), (0, 2 / 111320), (0, - 2 / 111320)]"

definition example_field_bounds :: bounds where
  "example_field_bounds =
     \<lparr>min_pt = \<lparr>lat = - 2 / 111320, lng = 0\<rparr>,
      max_pt = \<lparr>lat = 2 / 111320, lng = 3 / 111320\<rparr>,
      center = \<lparr>lat = 0, lng = 3 / 2 / 111320\<rparr>\<rparr>"

text \<open>A ring whose four points are all equal, and its bounds.\<close>

definition example_point_ring :: "point list" where
  "example_point_ring =
     [(7385 / 100, 1852 / 100), (7385 / 100, 1852 / 100), (7385 / 100, 1852 / 100),
      (7385 / 100, 1852 / 100)]"

definition example_point_bounds :: bounds where
  "example_point_bounds =
     \<lparr>min_pt = \<lparr>lat = 1852 / 100, lng = 7385 / 100\<rparr>,
      max_pt = \<lparr>lat = 1852 / 100, lng = 7385 / 100\<rparr>,
      center = \<lparr>lat = 1852 / 100, lng = 7385 / 100\<rparr>\<rparr>"

text \<open>A cell of main.js with its initial style, numbered \<open>n\<close>.\<close>

definition example_cell :: "nat \<Rightarrow> gridCell" where
  "example_cell n =
     \<lparr>number = n,
      layer = \<lparr>latlngs = [(0, 0), (1 / 111320, 0), (1 / 111320, 1 / 111320),
                           (0, 1 / 111320), (0, 0)],
               options = \<lparr>color = ''#94a3b8'', weight = 0.6, opacity = 0.7,
                          fillColor = ''#000000'', fillOpacity = 0.0,
                          className = ''grid-cell''\<rparr>,
               popup = Some n\<rparr>\<rparr>"

text \<open>
  A thin triangle with its apex at the origin, and the double nearest to one third.
  The point \<open>(example_third, 1)\<close> lies inside the triangle, at the height where its
  right edge has the abscissa one third.
\<close>

definition example_thin_triangle :: "point list" where
  "example_thin_triangle = [(0, 0), (1, 3), (- 1, 3), (0, 0)]"

definition example_third :: real where
  "example_third = 6004799503160661 / 18014398509481984"

text \<open>
  The rectangle of 100 m by 50 m centered at latitude 18.52, with its west edge at
  longitude 73.85. \<open>example_ideal\<close> is the rectangle in exact arithmetic: its
  sides are \<open>50 / 111320\<close> degrees of latitude and \<open>100 / (111320 * cos c)\<close>
  degrees of longitude, \<open>c\<close> being the latitude 18.52 in radians.
\<close>

definition example_ideal :: "point list" where
  "example_ideal =
     [(7385 / 100, 1852 / 100 - 25 / 111320),
      (7385 / 100 + 100 / (111320 * cos (radians (1852 / 100))), 1852 / 100 - 25 / 111320),
      (7385 / 100 + 100 / (111320 * cos (radians (1852 / 100))), 1852 / 100 + 25 / 111320),
      (7385 / 100, 1852 / 100 + 25 / 111320),
      (7385 / 100, 1852 / 100 - 25 / 111320)]"

definition example_ideal_bounds :: bounds where
  "example_ideal_bounds =
     \<lparr>min_pt = \<lparr>lat = 1852 / 100 - 25 / 111320, lng = 7385 / 100\<rparr>,
      max_pt = \<lparr>lat = 1852 / 100 + 25 / 111320,
                 lng = 7385 / 100 + 100 / (111320 * cos (radians (1852 / 100)))\<rparr>,
      center = \<lparr>lat = 1852 / 100,
                 lng = 7385 / 100 + 50 / (111320 * cos (radians (1852 / 100)))\<rparr>\<rparr>"

text \<open>
  \<open>example_rectangle\<close> is the same rectangle in double coordinates, as the
  engine computes them: the south edge \<^verbatim>\<open>18.52 - 25 * (1 / 111320)\<close> is the double
  18.51977542220625, the north edge \<^verbatim>\<open>18.52 + 25 * (1 / 111320)\<close> the double
  18.520224577793748, the west edge the double of 73.85 and the east edge the double
  73.85094737293119. \<open>example_rectangle_below\<close> has the next double below,
  18.520224577793744, as its north edge.
\<close>

definition example_rectangle :: "point list" where
  "example_rectangle =
     [(2598365878760243 / 35184372088832, 1303213338913021 / 70368744177664),
      (2598399211481961 / 35184372088832, 1303213338913021 / 70368744177664),
      (2598399211481961 / 35184372088832, 2606489890855307 / 140737488355328),
      (2598365878760243 / 35184372088832, 2606489890855307 / 140737488355328),
      (2598365878760243 / 35184372088832, 1303213338913021 / 70368744177664)]"

definition example_rectangle_bounds :: bounds where
  "example_rectangle_bounds =
     \<lparr>min_pt = \<lparr>lat = 1303213338913021 / 70368744177664,
                 lng = 2598365878760243 / 35184372088832\<rparr>,
      max_pt = \<lparr>lat = 2606489890855307 / 140737488355328,
                 lng = 2598399211481961 / 35184372088832\<rparr>,
      center = \<lparr>lat = (1303213338913021 / 70368744177664
                        + 2606489890855307 / 140737488355328) / 2,
                 lng = (2598365878760243 / 35184372088832
                        + 2598399211481961 / 35184372088832) / 2\<rparr>\<rparr>"

definition example_rectangle_below :: "point list" where
  "example_rectangle_below =
     [(2598365878760243 / 35184372088832, 1303213338913021 / 70368744177664),
      (2598399211481961 / 35184372088832, 1303213338913021 / 70368744177664),
      (2598399211481961 / 35184372088832, 5212979781710613 / 281474976710656),
      (2598365878760243 / 35184372088832, 5212979781710613 / 281474976710656),
      (2598365878760243 / 35184372088832, 1303213338913021 / 70368744177664)]"

definition example_rectangle_below_bounds :: bounds where
  "example_rectangle_below_bounds =
     \<lparr>min_pt = \<lparr>lat = 1303213338913021 / 70368744177664,
                 lng = 2598365878760243 / 35184372088832\<rparr>,
      max_pt = \<lparr>lat = 5212979781710613 / 281474976710656,
                 lng = 2598399211481961 / 35184372088832\<rparr>,
      center = \<lparr>lat = (1303213338913021 / 70368744177664
                        + 5212979781710613 / 281474976710656) / 2,
                 lng = (2598365878760243 / 35184372088832
                        + 2598399211481961 / 35184372088832) / 2\<rparr>\<rparr>"

text \<open>Cell records of a snapshot: a reading, and a reading that cannot be converted.\<close>

definition example_reading :: "jsval \<Rightarrow> jsval" where
  "example_reading v = JObject [(''moisture'', v)]"

definition example_unconvertible :: jsval where
  "example_unconvertible = JObject [(''toString'', JNumber (Finite 1))]"

section \<open>The crossing test never divides by zero\<close>

lemma intersect_checked_eq: "intersect_checked p vi vj = Some (intersect p vi vj)"
  by (auto simp: intersect_checked_def intersect_def divide_checked_def split: prod.splits)

lemma intersect_mobile_checked_eq:
  "intersect_mobile_checked p vi vj = Some (intersect_mobile p vi vj)"
  by (auto simp: intersect_mobile_checked_def intersect_mobile_def divide_checked_def split: prod.splits)

lemma rayLoop_checked_eq:
  "rayLoop_checked p polygon i j inside = Some (rayLoop p polygon i j inside)"
proof (induction p polygon i j inside rule: rayLoop.induct)
  case (1 p polygon i j inside)
  show ?case
  proof (cases "i < length polygon")
    case True
    with 1 show ?thesis
      by (subst rayLoop_checked.simps, subst rayLoop.simps)
         (simp add: intersect_checked_eq)
  next
    case False
    then show ?thesis
      by (subst rayLoop_checked.simps, subst rayLoop.simps) simp
  qed
qed

lemma rayLoop_mobile_checked_eq:
  "rayLoop_mobile_checked p polygon i j inside = Some (rayLoop_mobile p polygon i j inside)"
proof (induction p polygon i j inside rule: rayLoop_mobile.induct)
  case (1 p polygon i j inside)
  show ?case
  proof (cases "i < length polygon")
    case True
    with 1 show ?thesis
      by (subst rayLoop_mobile_checked.simps, subst rayLoop_mobile.simps)
         (simp add: intersect_mobile_checked_eq)
  next
    case False
    then show ?thesis
      by (subst rayLoop_mobile_checked.simps, subst rayLoop_mobile.simps) simp
  qed
qed

text \<open>
  C10. For every test point and every vertex list the ray-casting functions of both
  files return a result and never divide by zero: the loop with the watched
  division never reports a zero divisor and returns what the plain loop returns,
  because the division is only reached when exactly one of \<open>yi > y\<close> and
  \<open>yj > y\<close> holds, so that \<open>yi\<close> and \<open>yj\<close> differ. On the empty vertex list the
  result is false.
\<close>

theorem isPointInPolygon_total_no_zero_division:
  "isPointInPolygon_checked p polygon = Some (isPointInPolygon p polygon)
   \<and> isPointInPolygon_mobile_checked q polygon = Some (isPointInPolygon_mobile q polygon)
   \<and> isPointInPolygon_checked p [] = Some False
   \<and> isPointInPolygon_mobile_checked q [] = Some False"
  by (simp add: isPointInPolygon_checked_def isPointInPolygon_def
      isPointInPolygon_mobile_checked_def isPointInPolygon_mobile_def
      rayLoop_checked_eq rayLoop_mobile_checked_eq rayLoop.simps rayLoop_mobile.simps)

section \<open>Reversing the ring\<close>

lemma rayLoop_fold:
  "i \<le> length polygon \<Longrightarrow> j = (if i = 0 then length polygon - 1 else i - 1) \<Longrightarrow>
   rayLoop p polygon i j inside =
     fold (\<lambda>(vi, vj) b. if intersect p vi vj then \<not> b else b) (drop i (edges polygon)) inside"
proof (induction p polygon i j inside rule: rayLoop.induct)
  case (1 p polygon i j inside)
  show ?case
  proof (cases "i < length polygon")
    case True
    then have ne: "polygon \<noteq> []" by auto
    have len: "length (edges polygon) = length polygon"
      using ne by (simp add: edges_def)
    have nth: "edges polygon ! i = (polygon ! i, polygon ! j)"
      using True ne 1(3)
      by (auto simp: edges_def nth_Cons' last_conv_nth nth_butlast)
    have d: "drop i (edges polygon) = edges polygon ! i # drop (Suc i) (edges polygon)"
      using True len by (simp add: Cons_nth_drop_Suc)
    have "rayLoop p polygon i j inside = rayLoop p polygon (i + 1) i
             (if intersect p (polygon ! i) (polygon ! j) then \<not> inside else inside)"
      using True by (subst rayLoop.simps) simp
    also have "\<dots> = fold (\<lambda>(vi, vj) b. if intersect p vi vj then \<not> b else b)
        (drop (i + 1) (edges polygon))
        (if intersect p (polygon ! i) (polygon ! j) then \<not> inside else inside)"
      using True by (intro 1(1)) auto
    finally show ?thesis by (simp add: d nth)
  next
    case False
    with 1(2) have "i = length polygon" by simp
    then show ?thesis
      by (subst rayLoop.simps) (simp add: edges_def)
  qed
qed

lemma fold_toggle:
  "fold (\<lambda>e b. if P e then \<not> b else b) es b = (b \<noteq> odd (length (filter P es)))"
  by (induction es arbitrary: b) auto

lemma intersect_sym: "intersect p vi vj = intersect p vj vi"
proof -
  obtain x y xi yi xj yj where e: "p = (x, y)" "vi = (xi, yi)" "vj = (xj, yj)"
    by (cases p, cases vi, cases vj) auto
  show ?thesis
  proof (cases "(yi > y) \<noteq> (yj > y)")
    case True
    then have ne: "yj - yi \<noteq> 0" "yi - yj \<noteq> 0" by auto
    have "(xj - xi) * (y - yi) / (yj - yi) + xi = (xi - xj) * (y - yj) / (yi - yj) + xj"
      using ne by (simp add: field_simps)
    then show ?thesis using True by (auto simp: intersect_def e)
  next
    case False
    then show ?thesis by (auto simp: intersect_def e)
  qed
qed

lemma edges_Cons: "ps \<noteq> [] \<Longrightarrow> edges ps = (hd ps, last ps) # zip (tl ps) (butlast ps)"
  by (cases ps) (auto simp: edges_def)

lemma adj_rev: "zip (tl (rev ps)) (butlast (rev ps)) = rev (map prod.swap (zip (tl ps) (butlast ps)))"
proof -
  have "zip (tl (rev ps)) (butlast (rev ps)) = zip (rev (butlast ps)) (rev (tl ps))"
  proof -
    have "tl (rev ps) = rev (butlast ps)"
      by (induction ps rule: rev_induct) auto
    then show ?thesis by simp
  qed
  also have "\<dots> = rev (zip (butlast ps) (tl ps))"
    by (simp add: zip_rev)
  also have "zip (butlast ps) (tl ps) = map prod.swap (zip (tl ps) (butlast ps))"
    by (subst zip_commute) (simp add: prod.swap_def case_prod_unfold)
  finally show ?thesis .
qed

lemma edges_rev_mset: "mset (edges (rev ps)) = image_mset prod.swap (mset (edges ps))"
proof (cases "ps = []")
  case True
  then show ?thesis by (simp add: edges_def)
next
  case False
  then show ?thesis
    using adj_rev [of ps] by (simp add: edges_Cons hd_rev last_rev del: butlast_rev)
qed

lemma isPointInPolygon_count:
  "isPointInPolygon p polygon =
     odd (size (filter_mset (\<lambda>(vi, vj). intersect p vi vj) (mset (edges polygon))))"
proof -
  have "isPointInPolygon p polygon =
     fold (\<lambda>(vi, vj) b. if intersect p vi vj then \<not> b else b) (edges polygon) False"
    unfolding isPointInPolygon_def by (subst rayLoop_fold) auto
  also have "\<dots> = odd (length (filter (\<lambda>(vi, vj). intersect p vi vj) (edges polygon)))"
    using fold_toggle [of "\<lambda>(vi, vj). intersect p vi vj" "edges polygon" False]
    by (simp add: case_prod_unfold)
  finally show ?thesis by (simp flip: mset_filter)
qed

lemma isPointInPolygon_rev: "isPointInPolygon p (rev polygon) = isPointInPolygon p polygon"
proof -
  have "filter_mset (\<lambda>(vi, vj). intersect p vi vj) (image_mset prod.swap (mset (edges polygon)))
      = image_mset prod.swap (filter_mset (\<lambda>(vi, vj). intersect p vi vj) (mset (edges polygon)))"
    by (simp add: filter_mset_image_mset case_prod_unfold intersect_sym [of p "snd _" "fst _"])
  then show ?thesis
    by (simp add: isPointInPolygon_count edges_rev_mset)
qed

lemma intersect_mobile_swap:
  "intersect_mobile p vi vj = intersect (prod.swap p) (prod.swap vi) (prod.swap vj)"
  by (simp add: intersect_mobile_def intersect_def split: prod.splits)

lemma rayLoop_mobile_eq:
  "(i < length polygon \<longrightarrow> j < length polygon) \<Longrightarrow>
   rayLoop_mobile p polygon i j inside =
     rayLoop (prod.swap p) (map prod.swap polygon) i j inside"
proof (induction p polygon i j inside rule: rayLoop_mobile.induct)
  case (1 p polygon i j inside)
  show ?case
  proof (cases "i < length polygon")
    case True
    with 1(2) have j: "j < length polygon" by simp
    have "rayLoop_mobile p polygon i j inside = rayLoop_mobile p polygon (i + 1) i
        (if intersect_mobile p (polygon ! i) (polygon ! j) then \<not> inside else inside)"
      using True by (subst rayLoop_mobile.simps) simp
    also have "\<dots> = rayLoop (prod.swap p) (map prod.swap polygon) (i + 1) i
        (if intersect_mobile p (polygon ! i) (polygon ! j) then \<not> inside else inside)"
      using True by (intro 1(1)) auto
    also have "\<dots> = rayLoop (prod.swap p) (map prod.swap polygon) i j inside"
      using True j by (subst (2) rayLoop.simps) (simp add: intersect_mobile_swap)
    finally show ?thesis .
  next
    case False
    then show ?thesis
      by (subst rayLoop_mobile.simps, subst rayLoop.simps) simp
  qed
qed

lemma isPointInPolygon_mobile_eq:
  "isPointInPolygon_mobile p polygon = isPointInPolygon (prod.swap p) (map prod.swap polygon)"
  unfolding isPointInPolygon_mobile_def isPointInPolygon_def
  by (subst rayLoop_mobile_eq) auto

subsection \<open>Rounding\<close>

text \<open>
  \<open>exponent2\<close> is the binary exponent, and the difference of two distinct doubles
  does not round to zero: where the engine evaluates the division of the crossing
  test, the two ordinates differ and the divisor is not zero.
\<close>

lemma pow2_nonneg: "0 \<le> e \<Longrightarrow> pow2 e = 2 ^ nat e"
  by (simp add: pow2_def)

lemma pow2_nonpos: "e \<le> 0 \<Longrightarrow> pow2 e = 1 / 2 ^ nat (- e)"
  by (cases "e = 0") (simp_all add: pow2_def)

lemma exponent2_bounds:
  assumes "0 < a"
  shows "pow2 (exponent2 a) \<le> a \<and> a < pow2 (exponent2 a + 1)"
proof (cases "1 \<le> a")
  case True
  define n where "n = \<lfloor>a\<rfloor>"
  have n: "0 < n" using True by (simp add: n_def)
  have b: "2 ^ nat (bitlen n - 1) \<le> n" "n < 2 ^ nat (bitlen n)"
    using bitlen_bounds [OF n] by simp_all
  have pos: "1 \<le> bitlen n" using n by (simp add: bitlen_def floorlog_def)
  have e: "exponent2 a = bitlen n - 1" using True by (simp add: exponent2_def n_def)
  have "real_of_int (2 ^ nat (bitlen n - 1)) \<le> real_of_int n"
    using b(1) by (simp only: of_int_le_iff)
  moreover have "real_of_int n \<le> a" by (simp add: n_def)
  ultimately have "real_of_int (2 ^ nat (bitlen n - 1)) \<le> a" by (rule order_trans)
  then have lo: "2 ^ nat (bitlen n - 1) \<le> a" by simp
  have "n + 1 \<le> 2 ^ nat (bitlen n)" using b(2) by simp
  then have "real_of_int (n + 1) \<le> real_of_int (2 ^ nat (bitlen n))"
    by (simp only: of_int_le_iff)
  moreover have "a < real_of_int (n + 1)" by (simp add: n_def)
  ultimately have "a < real_of_int (2 ^ nat (bitlen n))" by (rule less_le_trans [rotated])
  then have hi: "a < 2 ^ nat (bitlen n)" by simp
  show ?thesis using lo hi pos by (simp add: e pow2_nonneg)
next
  case False
  define t where "t = 1 / a"
  define m where "m = \<lceil>t\<rceil> - 1"
  have t1: "1 < t" using False assms by (simp add: t_def)
  then have "2 \<le> \<lceil>t\<rceil>" by linarith
  then have m: "0 < m" by (simp add: m_def)
  have mt: "real_of_int m < t" "t \<le> real_of_int m + 1"
    by (simp_all add: m_def) linarith+
  have b: "2 ^ nat (bitlen m - 1) \<le> m" "m < 2 ^ nat (bitlen m)"
    using bitlen_bounds [OF m] by simp_all
  have pos: "1 \<le> bitlen m" using m by (simp add: bitlen_def floorlog_def)
  have e: "exponent2 a = - bitlen m" using False by (simp add: exponent2_def m_def t_def)
  have "m + 1 \<le> 2 ^ nat (bitlen m)" using b(2) by simp
  then have "real_of_int (m + 1) \<le> real_of_int (2 ^ nat (bitlen m))"
    by (simp only: of_int_le_iff)
  moreover have "t \<le> real_of_int (m + 1)" using mt(2) by simp
  ultimately have "t \<le> real_of_int (2 ^ nat (bitlen m))" by (rule order_trans [rotated])
  then have "t \<le> 2 ^ nat (bitlen m)" by simp
  then have lo: "1 / 2 ^ nat (bitlen m) \<le> a"
    using assms by (simp add: t_def field_simps)
  have "real_of_int (2 ^ nat (bitlen m - 1)) \<le> real_of_int m"
    using b(1) by (simp only: of_int_le_iff)
  then have "real_of_int (2 ^ nat (bitlen m - 1)) < t" using mt(1) by (rule le_less_trans)
  then have "2 ^ nat (bitlen m - 1) < t" by simp
  then have hi: "a < 1 / 2 ^ nat (bitlen m - 1)"
    using assms by (simp add: t_def field_simps)
  have "pow2 (- bitlen m) = 1 / 2 ^ nat (bitlen m)" using pos by (simp add: pow2_nonpos)
  moreover have "pow2 (- bitlen m + 1) = 1 / 2 ^ nat (bitlen m - 1)"
    using pos by (simp add: pow2_nonpos)
  ultimately show ?thesis using lo hi by (simp add: e)
qed

lemma pow2_powr: "pow2 e = 2 powr (real_of_int e)"
proof (cases "0 \<le> e")
  case True
  then show ?thesis by (simp add: pow2_def powr_realpow [symmetric])
next
  case False
  then have "pow2 e = 1 / 2 ^ nat (- e)" by (simp add: pow2_def)
  also have "\<dots> = 1 / 2 powr (real_of_int (- e))"
    using False by (simp add: powr_realpow [symmetric])
  also have "\<dots> = 2 powr (real_of_int e)" by (simp add: powr_minus divide_inverse)
  finally show ?thesis .
qed

lemma pow2_pos: "0 < pow2 e"
  by (simp add: pow2_powr)

lemma pow2_add: "pow2 (a + b) = pow2 a * pow2 b"
  by (simp add: pow2_powr powr_add)

lemma pow2_mono: "a \<le> b \<Longrightarrow> pow2 a \<le> pow2 b"
  by (simp add: pow2_powr)

lemma round_half_even_cases:
  "round_half_even q = \<lfloor>q\<rfloor> \<or> round_half_even q = \<lfloor>q\<rfloor> + 1"
  by (simp add: round_half_even_def Let_def)

lemma round_half_even_nonzero:
  assumes "1 \<le> \<bar>q\<bar>"
  shows "round_half_even q \<noteq> 0"
proof (cases "0 \<le> q")
  case True
  with assms have "1 \<le> q" by simp
  then have "0 < \<lfloor>q\<rfloor>" by linarith
  then show ?thesis using round_half_even_cases [of q] by linarith
next
  case False
  with assms have q: "q \<le> - 1" by simp
  then have f: "\<lfloor>q\<rfloor> \<le> - 1" by (simp add: floor_le_iff)
  show ?thesis
  proof (cases "\<lfloor>q\<rfloor> = - 1")
    case True
    then have "- 1 \<le> q" by linarith
    with q have "q = - 1" by simp
    then show ?thesis unfolding round_half_even_def Let_def True by simp
  next
    case False
    with f have "\<lfloor>q\<rfloor> + 1 < 0" by linarith
    then show ?thesis using round_half_even_cases [of q] by linarith
  qed
qed

lemma round_double_nonzero:
  assumes "pow2 (- 1074) \<le> \<bar>r\<bar>"
  shows "round_double r \<noteq> Finite 0"
proof -
  have r0: "r \<noteq> 0" using assms pow2_pos [of "- 1074"] by auto
  define e where "e = max (exponent2 \<bar>r\<bar>) (- 1022)"
  define ulp where "ulp = pow2 (e - 52)"
  have up: "0 < ulp" by (simp add: ulp_def pow2_pos)
  have "ulp \<le> \<bar>r\<bar>"
  proof (cases "exponent2 \<bar>r\<bar> \<le> - 1022")
    case True
    then have "e = - 1022" by (simp add: e_def)
    then show ?thesis using assms by (simp add: ulp_def)
  next
    case False
    then have "e = exponent2 \<bar>r\<bar>" by (simp add: e_def)
    moreover have "pow2 (exponent2 \<bar>r\<bar>) \<le> \<bar>r\<bar>"
      using exponent2_bounds [of "\<bar>r\<bar>"] r0 by simp
    moreover have "pow2 (exponent2 \<bar>r\<bar> - 52) \<le> pow2 (exponent2 \<bar>r\<bar>)"
      by (rule pow2_mono) simp
    ultimately show ?thesis by (simp add: ulp_def)
  qed
  then have "1 \<le> \<bar>r / ulp\<bar>" using up by (simp add: field_simps)
  then have n: "round_half_even (r / ulp) \<noteq> 0" by (rule round_half_even_nonzero)
  then have "of_int (round_half_even (r / ulp)) * ulp \<noteq> 0" using up by simp
  then show ?thesis
    using r0 by (simp add: round_double_def Let_def e_def [symmetric] ulp_def [symmetric])
qed

lemma is_double_multiple:
  assumes "is_double r"
  shows "\<exists>n::int. r = of_int n * pow2 (- 1074)"
proof (cases "r = 0")
  case True
  then show ?thesis by (intro exI [of _ 0]) simp
next
  case False
  define e where "e = max (exponent2 \<bar>r\<bar>) (- 1022)"
  define k where "k = round_half_even (r / pow2 (e - 52))"
  have "r = of_int k * pow2 (e - 52)"
    using assms False
    by (auto simp: is_double_def round_double_def Let_def e_def [symmetric] k_def [symmetric]
        split: if_splits)
  moreover have "0 \<le> e + 1022" by (simp add: e_def)
  then have "pow2 (e - 52) = of_int (2 ^ nat (e + 1022)) * pow2 (- 1074)"
    using pow2_add [of "e + 1022" "- 1074"] by (simp add: pow2_nonneg)
  ultimately have "r = of_int (k * 2 ^ nat (e + 1022)) * pow2 (- 1074)" by simp
  then show ?thesis by blast
qed

lemma dsub_doubles_nonzero:
  assumes "is_double a" and "is_double b" and "a \<noteq> b"
  shows "dsub (Finite a) (Finite b) \<noteq> Finite 0"
proof -
  obtain m n :: int where a: "a = of_int m * pow2 (- 1074)" and b: "b = of_int n * pow2 (- 1074)"
    using is_double_multiple [OF assms(1)] is_double_multiple [OF assms(2)] by blast
  from assms(3) have "m \<noteq> n" using a b by auto
  then have "1 \<le> \<bar>m - n\<bar>" by simp
  then have "(1::real) \<le> \<bar>of_int (m - n)\<bar>" by linarith
  moreover have "a - b = of_int (m - n) * pow2 (- 1074)" by (simp add: a b algebra_simps)
  ultimately have "pow2 (- 1074) \<le> \<bar>a - b\<bar>"
    using pow2_pos [of "- 1074"] by (simp add: abs_mult)
  then show ?thesis
    using round_double_nonzero [of "a - b"] by (simp add: dsub_def)
qed

subsection \<open>The loop in doubles\<close>

lemma rayLoopWith_fold:
  "i \<le> length polygon \<Longrightarrow> j = (if i = 0 then length polygon - 1 else i - 1) \<Longrightarrow>
   rayLoopWith test p polygon i j inside =
     fold (\<lambda>(vi, vj) b. if test p vi vj then \<not> b else b) (drop i (edges polygon)) inside"
proof (induction test p polygon i j inside rule: rayLoopWith.induct)
  case (1 test p polygon i j inside)
  show ?case
  proof (cases "i < length polygon")
    case True
    then have ne: "polygon \<noteq> []" by auto
    have len: "length (edges polygon) = length polygon"
      using ne by (simp add: edges_def)
    have nth: "edges polygon ! i = (polygon ! i, polygon ! j)"
      using True ne 1(3)
      by (auto simp: edges_def nth_Cons' last_conv_nth nth_butlast)
    have d: "drop i (edges polygon) = edges polygon ! i # drop (Suc i) (edges polygon)"
      using True len by (simp add: Cons_nth_drop_Suc)
    have "rayLoopWith test p polygon i j inside = rayLoopWith test p polygon (i + 1) i
             (if test p (polygon ! i) (polygon ! j) then \<not> inside else inside)"
      using True by (subst rayLoopWith.simps) simp
    also have "\<dots> = fold (\<lambda>(vi, vj) b. if test p vi vj then \<not> b else b)
        (drop (i + 1) (edges polygon))
        (if test p (polygon ! i) (polygon ! j) then \<not> inside else inside)"
      using True by (intro 1(1)) auto
    finally show ?thesis by (simp add: d nth)
  next
    case False
    with 1(2) have "i = length polygon" by simp
    then show ?thesis
      by (subst rayLoopWith.simps) (simp add: edges_def)
  qed
qed

lemma rayLoopWith_count:
  "rayLoopWith test p polygon 0 (length polygon - 1) False =
     odd (size (filter_mset (\<lambda>(vi, vj). test p vi vj) (mset (edges polygon))))"
proof -
  have "rayLoopWith test p polygon 0 (length polygon - 1) False =
     fold (\<lambda>(vi, vj) b. if test p vi vj then \<not> b else b) (edges polygon) False"
    by (subst rayLoopWith_fold) auto
  also have "\<dots> = odd (length (filter (\<lambda>(vi, vj). test p vi vj) (edges polygon)))"
    using fold_toggle [of "\<lambda>(vi, vj). test p vi vj" "edges polygon" False]
    by (simp add: case_prod_unfold)
  finally show ?thesis by (simp flip: mset_filter)
qed

lemma rayLoopWith_rev:
  assumes "\<forall>e\<in>set (edges polygon). test p (fst e) (snd e) = test p (snd e) (fst e)"
  shows "rayLoopWith test p (rev polygon) 0 (length (rev polygon) - 1) False
       = rayLoopWith test p polygon 0 (length polygon - 1) False"
proof -
  have "filter_mset (\<lambda>(vi, vj). test p vi vj) (image_mset prod.swap (mset (edges polygon)))
      = image_mset prod.swap (filter_mset (\<lambda>(vi, vj). test p vj vi) (mset (edges polygon)))"
    by (simp add: filter_mset_image_mset case_prod_unfold)
  also have "filter_mset (\<lambda>(vi, vj). test p vj vi) (mset (edges polygon))
      = filter_mset (\<lambda>(vi, vj). test p vi vj) (mset (edges polygon))"
    using assms by (intro filter_mset_cong) (auto simp: case_prod_unfold)
  finally have "size (filter_mset (\<lambda>(vi, vj). test p vi vj) (mset (edges (rev polygon))))
      = size (filter_mset (\<lambda>(vi, vj). test p vi vj) (mset (edges polygon)))"
    by (simp add: edges_rev_mset)
  then show ?thesis
    by (simp only: rayLoopWith_count)
qed

lemma rayLoop_With: "rayLoop p polygon i j inside = rayLoopWith intersect p polygon i j inside"
proof (induction p polygon i j inside rule: rayLoop.induct)
  case (1 p polygon i j inside)
  show ?case
  proof (cases "i < length polygon")
    case True
    with 1 show ?thesis by (subst rayLoop.simps, subst rayLoopWith.simps) simp
  next
    case False
    then show ?thesis by (subst rayLoop.simps, subst rayLoopWith.simps) simp
  qed
qed

lemmas double_eval =
  round_double_def exponent2_def pow2_def round_half_even_def Let_def compute_bitlen
  dsub_def is_double_def

lemma thin_edges: "edges example_thin_triangle =
   [((0, 0), (0, 0)), ((1, 3), (0, 0)), ((- 1, 3), (1, 3)), ((0, 0), (- 1, 3))]"
  by (simp add: edges_def example_thin_triangle_def)

lemma thin_doubles: "\<forall>v\<in>set example_thin_triangle. double_point v"
  by (simp add: example_thin_triangle_def double_point_def double_eval)

text \<open>
  C9, as the code has it. The test point and the vertices have double coordinates.
  Reversing the ring makes the loop visit the same edges, each from its other end.
  In main.js and in mobile.js the function returns the same boolean on the ring
  and on the reversed ring whenever, for every edge of the ring, the rounded
  crossing test gives the same boolean from either end of the edge.
\<close>

theorem winding_agnostic_up_to_rounding:
  assumes "double_point p" and "\<forall>v\<in>set polygon. double_point v"
  shows "((\<forall>e\<in>set (edges polygon).
        intersect_double p (fst e) (snd e) = intersect_double p (snd e) (fst e))
      \<longrightarrow> isPointInPolygon_double p (rev polygon) = isPointInPolygon_double p polygon)
   \<and> ((\<forall>e\<in>set (edges polygon).
        intersect_mobile_double p (fst e) (snd e) = intersect_mobile_double p (snd e) (fst e))
      \<longrightarrow> isPointInPolygon_mobile_double p (rev polygon)
          = isPointInPolygon_mobile_double p polygon)"
  using rayLoopWith_rev [of polygon intersect_double p]
    rayLoopWith_rev [of polygon intersect_mobile_double p]
  by (simp add: isPointInPolygon_double_def isPointInPolygon_mobile_double_def)

theorem winding_agnostic_up_to_rounding_witness:
  "double_point (1 / 4, 1)
   \<and> list_all double_point example_thin_triangle
   \<and> list_all (\<lambda>e. intersect_double (1 / 4, 1) (fst e) (snd e)
                      = intersect_double (1 / 4, 1) (snd e) (fst e))
        (edges example_thin_triangle)
   \<and> isPointInPolygon_double (1 / 4, 1) (rev example_thin_triangle)
   \<and> isPointInPolygon_double (1 / 4, 1) example_thin_triangle
   \<and> list_all (\<lambda>e. intersect_mobile_double (1 / 4, 1) (fst e) (snd e)
                      = intersect_mobile_double (1 / 4, 1) (snd e) (fst e))
        (edges example_thin_triangle)
   \<and> isPointInPolygon_mobile_double (1 / 4, 1) (rev example_thin_triangle)
       = isPointInPolygon_mobile_double (1 / 4, 1) example_thin_triangle"
proof -
  have p: "double_point (1 / 4, 1)"
    by (simp add: double_point_def double_eval)
  have h: "\<forall>e\<in>set (edges example_thin_triangle).
       intersect_double (1 / 4, 1) (fst e) (snd e) = intersect_double (1 / 4, 1) (snd e) (fst e)"
    unfolding thin_edges by (simp add: intersect_double_def double_eval)
  have hm: "\<forall>e\<in>set (edges example_thin_triangle).
       intersect_mobile_double (1 / 4, 1) (fst e) (snd e)
         = intersect_mobile_double (1 / 4, 1) (snd e) (fst e)"
    unfolding thin_edges by (simp add: intersect_mobile_double_def double_eval)
  have v: "isPointInPolygon_double (1 / 4, 1) example_thin_triangle"
    by (simp add: isPointInPolygon_double_def example_thin_triangle_def
        rayLoopWith.simps intersect_double_def double_eval)
  show ?thesis
    using winding_agnostic_up_to_rounding [OF p thin_doubles] p thin_doubles h hm v
    by (simp add: list_all_iff)
qed

text \<open>
  The claim C9 as stated fails in doubles. The point \<open>(example_third, 1)\<close> lies
  strictly inside the thin triangle. On the ring as given the crossing abscissa of
  the right edge is computed from its upper end, \<^verbatim>\<open>(0 - 1) * (1 - 3) / (0 - 3) + 1\<close>,
  which rounds to a double above \<open>example_third\<close>: the function returns true. On the
  reversed ring it is computed from the lower end, \<^verbatim>\<open>(1 - 0) * (1 - 0) / (3 - 0) + 0\<close>,
  which rounds to \<open>example_third\<close> itself: the function returns false. The same
  holds in mobile.js for the ring with its coordinates swapped. In exact arithmetic
  the point is inside for both orders.
\<close>

theorem winding_counterexample:
  "is_double example_third \<and> is_double 0 \<and> is_double 1 \<and> is_double 3 \<and> is_double (- 1)
   \<and> isPointInPolygon_double (example_third, 1) [(0, 0), (1, 3), (- 1, 3), (0, 0)]
   \<and> \<not> isPointInPolygon_double (example_third, 1) (rev [(0, 0), (1, 3), (- 1, 3), (0, 0)])
   \<and> isPointInPolygon_mobile_double (1, example_third) [(0, 0), (3, 1), (3, - 1), (0, 0)]
   \<and> \<not> isPointInPolygon_mobile_double (1, example_third)
         (rev [(0, 0), (3, 1), (3, - 1), (0, 0)])
   \<and> isPointInPolygon (example_third, 1) [(0, 0), (1, 3), (- 1, 3), (0, 0)]
   \<and> isPointInPolygon (example_third, 1) (rev [(0, 0), (1, 3), (- 1, 3), (0, 0)])"
  by (simp add: isPointInPolygon_double_def isPointInPolygon_mobile_double_def example_third_def
      rayLoopWith.simps intersect_double_def intersect_mobile_double_def double_eval
      isPointInPolygon_def rayLoop.simps intersect_def)


section \<open>The cells of the grid\<close>

lemma set_map_filter_Some: "set (List.map_filter f xs) = {c. \<exists>x\<in>set xs. f x = Some c}"
  by (force simp: map_filter_def image_iff)

lemma set_grid_loops:
  "set (concat (map (\<lambda>i. List.map_filter (f i) [0..<m]) [0..<n])) =
     {c. \<exists>i<n. \<exists>j<m. f i j = Some c}"
  by (fastforce simp: set_map_filter_Some)

lemma generateFieldGrid_Returns:
  assumes "generateFieldGrid gs (Some g) = Returns cells"
  obtains coords rest b where "coordinates g = Some (coords # rest)"
    and "getBoundsFromCoordinates coords = Some b"
    and "cells = concat (map (\<lambda>i. List.map_filter (gridCellAt gs coords b i)
                   [0..<lngCells gs b]) [0..<latCells gs b])"
  using assms
  by (auto simp: generateFieldGrid_def split: option.splits list.splits)

lemma generateFieldGrid_mobile_Returns:
  assumes "generateFieldGrid_mobile gs (Some g) = Returns cells"
  obtains coords rest b where "coordinates g = Some (coords # rest)"
    and "getBoundsFromCoordinates coords = Some b"
    and "cells = concat (map (\<lambda>i. List.map_filter (gridCellAt_mobile gs coords b i)
                   [0..<lngCells_mobile gs b]) [0..<latCells gs b])"
  using assms
  by (auto simp: generateFieldGrid_mobile_def split: option.splits list.splits)

lemma gridCellAt_Some:
  assumes "gridCellAt gs coords b i j = Some c"
  shows "number c = i * lngCells gs b + j + 1"
    and "popup (layer c) = Some (i * lngCells gs b + j + 1)"
    and "number c = cellNumber i j (lngCells gs b)"
    and "hd (latlngs (layer c)) =
           (lat (min_pt b) + real i * gridSizeLat gs, lng (min_pt b) + real j * gridSizeLng gs b)"
  using assms
  by (auto simp: gridCellAt_def Let_def bindPopup_def cellNumber_def split: if_splits)

lemma gridCellAt_mobile_Some:
  assumes "gridCellAt_mobile gs coords b i j = Some l"
  shows "popup l = Some (i * lngCells_mobile gs b + j + 1)"
    and "popup l = Some (cellNumber i j (lngCells_mobile gs b))"
    and "hd (latlngs l) =
           (lat (min_pt b) + real i * gridSizeLat gs,
            lng (min_pt b) + real j * gridSizeLng_mobile gs b)"
  using assms
  by (auto simp: gridCellAt_mobile_def Let_def bindPopup_def cellNumber_def split: if_splits)

lemma latCells_pos: "i < latCells gs b \<Longrightarrow> gridSizeLat gs \<noteq> 0"
  by (auto simp: latCells_def)

lemma lngCells_pos: "j < lngCells gs b \<Longrightarrow> gridSizeLng gs b \<noteq> 0"
  by (auto simp: lngCells_def)

lemma lngCells_mobile_pos: "j < lngCells_mobile gs b \<Longrightarrow> gridSizeLng_mobile gs b \<noteq> 0"
  by (auto simp: lngCells_mobile_def)

lemma main_stable:
  assumes g1: "generateFieldGrid gs (Some \<lparr>coordinates = Some (ring1 # rest1)\<rparr>) = Returns cells1"
    and g2: "generateFieldGrid gs (Some \<lparr>coordinates = Some (ring2 # rest2)\<rparr>) = Returns cells2"
    and bb: "getBoundsFromCoordinates ring1 = getBoundsFromCoordinates ring2"
    and c1: "c1 \<in> set cells1" and c2: "c2 \<in> set cells2"
    and same: "latlngs (layer c1) = latlngs (layer c2)"
  shows "number c1 = number c2"
proof -
  from g1 obtain b where b1: "getBoundsFromCoordinates ring1 = Some b"
    and cells1: "cells1 = concat (map (\<lambda>i. List.map_filter (gridCellAt gs ring1 b i)
                   [0..<lngCells gs b]) [0..<latCells gs b])"
    by (auto elim!: generateFieldGrid_Returns)
  from g2 bb b1 have cells2: "cells2 = concat (map (\<lambda>i. List.map_filter (gridCellAt gs ring2 b i)
                   [0..<lngCells gs b]) [0..<latCells gs b])"
    by (auto elim!: generateFieldGrid_Returns)
  from c1 obtain i j where ij: "i < latCells gs b" "j < lngCells gs b"
      "gridCellAt gs ring1 b i j = Some c1"
    unfolding cells1 set_grid_loops by auto
  from c2 obtain k l where kl: "k < latCells gs b" "l < lngCells gs b"
      "gridCellAt gs ring2 b k l = Some c2"
    unfolding cells2 set_grid_loops by auto
  have "hd (latlngs (layer c1)) = hd (latlngs (layer c2))"
    using same by simp
  then have "lat (min_pt b) + real i * gridSizeLat gs = lat (min_pt b) + real k * gridSizeLat gs"
    and "lng (min_pt b) + real j * gridSizeLng gs b = lng (min_pt b) + real l * gridSizeLng gs b"
    by (simp_all add: gridCellAt_Some(4) [OF ij(3)] gridCellAt_Some(4) [OF kl(3)])
  then have "i = k" "j = l"
    using latCells_pos [OF ij(1)] lngCells_pos [OF ij(2)] by simp_all
  then show ?thesis
    by (simp add: gridCellAt_Some(1) [OF ij(3)] gridCellAt_Some(1) [OF kl(3)])
qed

lemma mobile_stable:
  assumes g1: "generateFieldGrid_mobile gs (Some \<lparr>coordinates = Some (ring1 # rest1)\<rparr>) = Returns layers1"
    and g2: "generateFieldGrid_mobile gs (Some \<lparr>coordinates = Some (ring2 # rest2)\<rparr>) = Returns layers2"
    and bb: "getBoundsFromCoordinates ring1 = getBoundsFromCoordinates ring2"
    and c1: "l1 \<in> set layers1" and c2: "l2 \<in> set layers2"
    and same: "latlngs l1 = latlngs l2"
  shows "popup l1 = popup l2"
proof -
  from g1 obtain b where b1: "getBoundsFromCoordinates ring1 = Some b"
    and cells1: "layers1 = concat (map (\<lambda>i. List.map_filter (gridCellAt_mobile gs ring1 b i)
                   [0..<lngCells_mobile gs b]) [0..<latCells gs b])"
    by (auto elim!: generateFieldGrid_mobile_Returns)
  from g2 bb b1 have cells2: "layers2 = concat (map (\<lambda>i. List.map_filter (gridCellAt_mobile gs ring2 b i)
                   [0..<lngCells_mobile gs b]) [0..<latCells gs b])"
    by (auto elim!: generateFieldGrid_mobile_Returns)
  from c1 obtain i j where ij: "i < latCells gs b" "j < lngCells_mobile gs b"
      "gridCellAt_mobile gs ring1 b i j = Some l1"
    unfolding cells1 set_grid_loops by auto
  from c2 obtain k l where kl: "k < latCells gs b" "l < lngCells_mobile gs b"
      "gridCellAt_mobile gs ring2 b k l = Some l2"
    unfolding cells2 set_grid_loops by auto
  have "hd (latlngs l1) = hd (latlngs l2)"
    using same by simp
  then have "lat (min_pt b) + real i * gridSizeLat gs = lat (min_pt b) + real k * gridSizeLat gs"
    and "lng (min_pt b) + real j * gridSizeLng_mobile gs b
       = lng (min_pt b) + real l * gridSizeLng_mobile gs b"
    by (simp_all add: gridCellAt_mobile_Some(3) [OF ij(3)] gridCellAt_mobile_Some(3) [OF kl(3)])
  then have "i = k" "j = l"
    using latCells_pos [OF ij(1)] lngCells_mobile_pos [OF ij(2)] by simp_all
  then show ?thesis
    by (simp add: gridCellAt_mobile_Some(1) [OF ij(3)] gridCellAt_mobile_Some(1) [OF kl(3)])
qed

lemma grid_Returns:
  "getBoundsFromCoordinates ring = Some b \<Longrightarrow>
   generateFieldGrid gs (Some \<lparr>coordinates = Some (ring # rest)\<rparr>) =
     Returns (concat (map (\<lambda>i. List.map_filter (gridCellAt gs ring b i)
                   [0..<lngCells gs b]) [0..<latCells gs b]))"
  by (simp add: generateFieldGrid_def)

lemma grid_mobile_Returns:
  "getBoundsFromCoordinates ring = Some b \<Longrightarrow>
   generateFieldGrid_mobile gs (Some \<lparr>coordinates = Some (ring # rest)\<rparr>) =
     Returns (concat (map (\<lambda>i. List.map_filter (gridCellAt_mobile gs ring b i)
                   [0..<lngCells_mobile gs b]) [0..<latCells gs b]))"
  by (simp add: generateFieldGrid_mobile_def)

lemma in_grid:
  assumes "generateFieldGrid gs (Some \<lparr>coordinates = Some (ring # rest)\<rparr>) = Returns cells"
    and "getBoundsFromCoordinates ring = Some b"
  shows "set cells = {c. \<exists>i<latCells gs b. \<exists>j<lngCells gs b. gridCellAt gs ring b i j = Some c}"
proof -
  have "cells = concat (map (\<lambda>i. List.map_filter (gridCellAt gs ring b i)
                   [0..<lngCells gs b]) [0..<latCells gs b])"
    using assms(1) by (simp add: grid_Returns [OF assms(2)])
  then show ?thesis by (simp only: set_grid_loops)
qed

lemma in_grid_mobile:
  assumes "generateFieldGrid_mobile gs (Some \<lparr>coordinates = Some (ring # rest)\<rparr>) = Returns layers"
    and "getBoundsFromCoordinates ring = Some b"
  shows "set layers =
     {l. \<exists>i<latCells gs b. \<exists>j<lngCells_mobile gs b. gridCellAt_mobile gs ring b i j = Some l}"
proof -
  have "layers = concat (map (\<lambda>i. List.map_filter (gridCellAt_mobile gs ring b i)
                   [0..<lngCells_mobile gs b]) [0..<latCells gs b])"
    using assms(1) by (simp add: grid_mobile_Returns [OF assms(2)])
  then show ?thesis by (simp only: set_grid_loops)
qed

lemma in_gridI:
  assumes "generateFieldGrid gs (Some \<lparr>coordinates = Some (ring # rest)\<rparr>) = Returns cells"
    and "getBoundsFromCoordinates ring = Some b"
    and "gridCellAt gs ring b i j = Some c" and "i < latCells gs b" and "j < lngCells gs b"
  shows "c \<in> set cells"
  unfolding in_grid [OF assms(1,2)] using assms(3-5) by blast

lemma in_grid_mobileI:
  assumes "generateFieldGrid_mobile gs (Some \<lparr>coordinates = Some (ring # rest)\<rparr>) = Returns layers"
    and "getBoundsFromCoordinates ring = Some b"
    and "gridCellAt_mobile gs ring b i j = Some l"
    and "i < latCells gs b" and "j < lngCells_mobile gs b"
  shows "l \<in> set layers"
  unfolding in_grid_mobile [OF assms(1,2)] using assms(3-5) by blast

lemma example_square_bounds: "getBoundsFromCoordinates example_square = Some example_bounds"
  by (simp add: getBoundsFromCoordinates_def example_square_def example_bounds_def)

lemma example_triangle_bounds: "getBoundsFromCoordinates example_triangle = Some example_bounds"
  by (simp add: getBoundsFromCoordinates_def example_triangle_def example_bounds_def)

lemma example_steps:
  "gridSizeLat 1 = 1 / 111320" "gridSizeLng 1 example_bounds = 1 / 111320"
  "gridSizeLng_mobile 1 example_bounds = 1 / 111320"
  by (simp_all add: gridSizeLat_def gridSizeLng_def gridSizeLng_mobile_def latDegreePerMeter_def
      lngDegreePerMeter_def lngDegreePerMeter_mobile_def radians_def example_bounds_def)

lemma example_counts:
  "latCells 1 example_bounds = 2" "lngCells 1 example_bounds = 2"
  "lngCells_mobile 1 example_bounds = 2"
  by (simp_all add: latCells_def lngCells_def lngCells_mobile_def example_steps)
     (simp_all add: example_bounds_def)

lemmas cell_eval = gridCellAt_def gridCellAt_mobile_def Let_def example_steps example_counts
lemmas ray_eval =
  isPolygonWithinField_def bindPopup_def isPointInPolygon_def isPointInPolygon_mobile_def
  rayLoop.simps rayLoop_mobile.simps intersect_def intersect_mobile_def cellNumber_def

lemma example_square_cells:
  "gridCellAt 1 example_square example_bounds 0 0 \<noteq> None"
  "gridCellAt 1 example_square example_bounds 0 1 \<noteq> None"
  "gridCellAt 1 example_square example_bounds 1 0 \<noteq> None"
  "gridCellAt_mobile 1 example_square example_bounds 0 0 \<noteq> None"
  "gridCellAt_mobile 1 example_square example_bounds 0 1 \<noteq> None"
  "gridCellAt_mobile 1 example_square example_bounds 1 0 \<noteq> None"
  unfolding cell_eval
  by (simp_all add: ray_eval example_square_def example_bounds_def)

lemma example_triangle_cells:
  "gridCellAt 1 example_triangle example_bounds 0 0 \<noteq> None"
  "gridCellAt_mobile 1 example_triangle example_bounds 0 0 \<noteq> None"
  unfolding cell_eval
  by (simp_all add: ray_eval example_triangle_def example_bounds_def)

lemma gridCellAt_latlngs:
  "gridCellAt gs ring b i j = Some c \<Longrightarrow> gridCellAt gs ring' b i j = Some c' \<Longrightarrow> c' = c"
  by (auto simp: gridCellAt_def Let_def split: if_splits)

lemma gridCellAt_mobile_latlngs:
  "gridCellAt_mobile gs ring b i j = Some l \<Longrightarrow> gridCellAt_mobile gs ring' b i j = Some l'
    \<Longrightarrow> l' = l"
  by (auto simp: gridCellAt_mobile_def Let_def split: if_splits)


section \<open>Cell identities\<close>

text \<open>
  C1. Identity stability. Take two rings with the same bounds and one cell size.
  A cell (a rectangle of the candidate grid, given by its corner points) that is in
  the output for both rings has the same number in both outputs, in main.js
  (the numbers of \<^verbatim>\<open>gridCells\<close>) and in mobile.js (the numbers of the popups).
  The number is computed from the row, the column and the column count of the
  candidate grid, which depend on the bounds and the cell size only.
\<close>

theorem identity_stability:
  assumes "0 < gs"
    and "getBoundsFromCoordinates ring1 = getBoundsFromCoordinates ring2"
  shows "(generateFieldGrid gs (Some \<lparr>coordinates = Some (ring1 # rest1)\<rparr>) = Returns cells1
          \<and> generateFieldGrid gs (Some \<lparr>coordinates = Some (ring2 # rest2)\<rparr>) = Returns cells2
          \<and> c1 \<in> set cells1 \<and> c2 \<in> set cells2
          \<and> latlngs (layer c1) = latlngs (layer c2)
          \<longrightarrow> number c1 = number c2)
       \<and> (generateFieldGrid_mobile gs (Some \<lparr>coordinates = Some (ring1 # rest1)\<rparr>)
            = Returns layers1
          \<and> generateFieldGrid_mobile gs (Some \<lparr>coordinates = Some (ring2 # rest2)\<rparr>)
            = Returns layers2
          \<and> l1 \<in> set layers1 \<and> l2 \<in> set layers2 \<and> latlngs l1 = latlngs l2
          \<longrightarrow> popup l1 = popup l2)"
  using assms(2) main_stable [of gs ring1 rest1 cells1 ring2 rest2 cells2 c1 c2]
    mobile_stable [of gs ring1 rest1 layers1 ring2 rest2 layers2 l1 l2]
  by blast

theorem identity_stability_witness:
  "\<exists>cells1 cells2 c1 c2 layers1 layers2 l1 l2.
     (0::real) < 1
     \<and> getBoundsFromCoordinates example_square = getBoundsFromCoordinates example_triangle
     \<and> example_square \<noteq> example_triangle
     \<and> generateFieldGrid 1 (Some \<lparr>coordinates = Some [example_square]\<rparr>) = Returns cells1
     \<and> generateFieldGrid 1 (Some \<lparr>coordinates = Some [example_triangle]\<rparr>) = Returns cells2
     \<and> c1 \<in> set cells1 \<and> c2 \<in> set cells2 \<and> latlngs (layer c1) = latlngs (layer c2)
     \<and> number c1 = number c2
     \<and> generateFieldGrid_mobile 1 (Some \<lparr>coordinates = Some [example_square]\<rparr>)
          = Returns layers1
     \<and> generateFieldGrid_mobile 1 (Some \<lparr>coordinates = Some [example_triangle]\<rparr>)
          = Returns layers2
     \<and> l1 \<in> set layers1 \<and> l2 \<in> set layers2 \<and> latlngs l1 = latlngs l2
     \<and> popup l1 = popup l2"
proof -
  obtain cells1 where g1:
    "generateFieldGrid 1 (Some \<lparr>coordinates = Some [example_square]\<rparr>) = Returns cells1"
    by (simp add: grid_Returns [OF example_square_bounds])
  obtain cells2 where g2:
    "generateFieldGrid 1 (Some \<lparr>coordinates = Some [example_triangle]\<rparr>) = Returns cells2"
    by (simp add: grid_Returns [OF example_triangle_bounds])
  obtain layers1 where m1:
    "generateFieldGrid_mobile 1 (Some \<lparr>coordinates = Some [example_square]\<rparr>) = Returns layers1"
    by (simp add: grid_mobile_Returns [OF example_square_bounds])
  obtain layers2 where m2:
    "generateFieldGrid_mobile 1 (Some \<lparr>coordinates = Some [example_triangle]\<rparr>) = Returns layers2"
    by (simp add: grid_mobile_Returns [OF example_triangle_bounds])
  obtain c1 where c1: "gridCellAt 1 example_square example_bounds 0 0 = Some c1"
    using example_square_cells(1) by auto
  obtain c2 where c2: "gridCellAt 1 example_triangle example_bounds 0 0 = Some c2"
    using example_triangle_cells(1) by auto
  obtain l1 where l1: "gridCellAt_mobile 1 example_square example_bounds 0 0 = Some l1"
    using example_square_cells(4) by auto
  obtain l2 where l2: "gridCellAt_mobile 1 example_triangle example_bounds 0 0 = Some l2"
    using example_triangle_cells(2) by auto
  have in1: "c1 \<in> set cells1"
    by (rule in_gridI [OF g1 example_square_bounds c1]) (simp_all add: example_counts)
  have in2: "c2 \<in> set cells2"
    by (rule in_gridI [OF g2 example_triangle_bounds c2]) (simp_all add: example_counts)
  have in3: "l1 \<in> set layers1"
    by (rule in_grid_mobileI [OF m1 example_square_bounds l1]) (simp_all add: example_counts)
  have in4: "l2 \<in> set layers2"
    by (rule in_grid_mobileI [OF m2 example_triangle_bounds l2]) (simp_all add: example_counts)
  have same: "latlngs (layer c1) = latlngs (layer c2)" "latlngs l1 = latlngs l2"
    using gridCellAt_latlngs [OF c1 c2] gridCellAt_mobile_latlngs [OF l1 l2] by simp_all
  have bb: "getBoundsFromCoordinates example_square = getBoundsFromCoordinates example_triangle"
    by (simp add: example_square_bounds example_triangle_bounds)
  have ne: "example_square \<noteq> example_triangle"
    by (simp add: example_square_def example_triangle_def)
  have "number c1 = number c2 \<and> popup l1 = popup l2"
    using identity_stability [of 1 example_square example_triangle "[]" cells1 "[]" cells2 c1 c2
        layers1 layers2 l1 l2] bb g1 g2 m1 m2 in1 in2 in3 in4 same
    by simp
  with bb ne g1 g2 m1 m2 in1 in2 in3 in4 same show ?thesis
    by (intro exI [of _ cells1] exI [of _ cells2] exI [of _ c1] exI [of _ c2]
        exI [of _ layers1] exI [of _ layers2] exI [of _ l1] exI [of _ l2]) simp
qed


lemma in_grid_ex:
  assumes "generateFieldGrid gs (Some \<lparr>coordinates = Some (ring # rest)\<rparr>) = Returns cells"
    and "getBoundsFromCoordinates ring = Some b" and "c \<in> set cells"
  shows "\<exists>row<latCells gs b. \<exists>col<lngCells gs b.
           gridCellAt gs ring b row col = Some c
           \<and> number c = cellNumber row col (lngCells gs b)"
  using assms(3) unfolding in_grid [OF assms(1,2)]
  by (blast intro: gridCellAt_Some(3))

lemma in_grid_mobile_ex:
  assumes "generateFieldGrid_mobile gs (Some \<lparr>coordinates = Some (ring # rest)\<rparr>) = Returns layers"
    and "getBoundsFromCoordinates ring = Some b" and "l \<in> set layers"
  shows "\<exists>row<latCells gs b. \<exists>col<lngCells_mobile gs b.
           gridCellAt_mobile gs ring b row col = Some l
           \<and> popup l = Some (cellNumber row col (lngCells_mobile gs b))"
  using assms(3) unfolding in_grid_mobile [OF assms(1,2)]
  by (blast intro: gridCellAt_mobile_Some(2))

lemma cellNumber_order:
  "j + 1 < columns \<Longrightarrow>
   cellNumber i j columns < cellNumber i (j + 1) columns
   \<and> cellNumber i (j + 1) columns < cellNumber (i + 1) 0 columns"
  by (simp add: cellNumber_def)

text \<open>
  C2. Identity formula and row-major order. Every cell in the output stems from a
  row and a column of the candidate grid, and its number (in mobile.js the number
  of its popup) is \<open>row * columns + col + 1\<close>, where \<open>columns\<close> is the column
  count of the candidate grid, not the number of included cells. Hence, within a
  row of \<open>columns\<close> columns, the number of column \<open>j\<close> is below the number of
  column \<open>j + 1\<close>, which is below the number of the first column of the next row.
\<close>

theorem identity_formula_row_major:
  assumes "0 < gs" and "getBoundsFromCoordinates ring = Some b"
  shows "(generateFieldGrid gs (Some \<lparr>coordinates = Some (ring # rest)\<rparr>) = Returns cells
          \<and> c \<in> set cells
          \<longrightarrow> (\<exists>row<latCells gs b. \<exists>col<lngCells gs b.
                 gridCellAt gs ring b row col = Some c
                 \<and> number c = cellNumber row col (lngCells gs b)))
       \<and> (generateFieldGrid_mobile gs (Some \<lparr>coordinates = Some (ring # rest)\<rparr>)
            = Returns layers
          \<and> l \<in> set layers
          \<longrightarrow> (\<exists>row<latCells gs b. \<exists>col<lngCells_mobile gs b.
                 gridCellAt_mobile gs ring b row col = Some l
                 \<and> popup l = Some (cellNumber row col (lngCells_mobile gs b))))
       \<and> cellNumber i j columns = i * columns + j + 1
       \<and> (j + 1 < columns
          \<longrightarrow> cellNumber i j columns < cellNumber i (j + 1) columns
              \<and> cellNumber i (j + 1) columns < cellNumber (i + 1) 0 columns)"
  using in_grid_ex [OF _ assms(2), of gs rest cells c]
    in_grid_mobile_ex [OF _ assms(2), of gs rest layers l]
    cellNumber_order [of j columns i]
  by (auto simp: cellNumber_def)

theorem identity_formula_row_major_witness:
  "\<exists>cells c layers l.
     (0::real) < 1
     \<and> getBoundsFromCoordinates example_square = Some example_bounds
     \<and> generateFieldGrid 1 (Some \<lparr>coordinates = Some [example_square]\<rparr>) = Returns cells
     \<and> c \<in> set cells
     \<and> gridCellAt 1 example_square example_bounds 0 1 = Some c
     \<and> number c = 2
     \<and> generateFieldGrid_mobile 1 (Some \<lparr>coordinates = Some [example_square]\<rparr>)
          = Returns layers
     \<and> l \<in> set layers
     \<and> gridCellAt_mobile 1 example_square example_bounds 0 1 = Some l
     \<and> popup l = Some 2
     \<and> (0::nat) + 1 < 2
     \<and> cellNumber 0 0 2 = 1 \<and> cellNumber 0 1 2 = 2 \<and> cellNumber 1 0 2 = 3
     \<and> cellNumber 0 0 2 < cellNumber 0 1 2 \<and> cellNumber 0 1 2 < cellNumber 1 0 2"
proof -
  obtain cells where g:
    "generateFieldGrid 1 (Some \<lparr>coordinates = Some [example_square]\<rparr>) = Returns cells"
    by (simp add: grid_Returns [OF example_square_bounds])
  obtain layers where m:
    "generateFieldGrid_mobile 1 (Some \<lparr>coordinates = Some [example_square]\<rparr>) = Returns layers"
    by (simp add: grid_mobile_Returns [OF example_square_bounds])
  obtain c where c: "gridCellAt 1 example_square example_bounds 0 1 = Some c"
    using example_square_cells(2) by auto
  obtain l where l: "gridCellAt_mobile 1 example_square example_bounds 0 1 = Some l"
    using example_square_cells(5) by auto
  have inc: "c \<in> set cells"
    by (rule in_gridI [OF g example_square_bounds c]) (simp_all add: example_counts)
  have inl: "l \<in> set layers"
    by (rule in_grid_mobileI [OF m example_square_bounds l]) (simp_all add: example_counts)
  note t = identity_formula_row_major [OF _ example_square_bounds, of 1 "[]" cells c layers l]
  have ord: "cellNumber 0 0 2 = 1 \<and> cellNumber 0 1 2 = 2 \<and> cellNumber 1 0 2 = 3
     \<and> cellNumber 0 0 2 < cellNumber 0 1 2 \<and> cellNumber 0 1 2 < cellNumber 1 0 2"
    using t [of 0 0 2] t [of 0 1 2] t [of 1 0 2] by simp
  have nc: "number c = 2" "popup l = Some 2"
    using gridCellAt_Some(3) [OF c] gridCellAt_mobile_Some(2) [OF l] t [of 0 1 2]
    by (simp_all add: example_counts)
  show ?thesis
    using g m c l inc inl ord nc example_square_bounds
    by (intro exI [of _ cells] exI [of _ c] exI [of _ layers] exI [of _ l]) simp
qed

section \<open>A ring of equal points\<close>

lemma bounds_fold_const:
  "\<forall>c\<in>set coords. c = (p::point) \<Longrightarrow>
   fold (\<lambda>coord (minLat, maxLat, minLng, maxLng).
           case coord of (cLng, cLat) \<Rightarrow>
             (min minLat cLat, max maxLat cLat, min minLng cLng, max maxLng cLng))
        coords (snd p, snd p, fst p, fst p) = (snd p, snd p, fst p, fst p)"
proof (induction coords)
  case Nil
  then show ?case by simp
next
  case (Cons c coords)
  then have "c = p" and "\<forall>c\<in>set coords. c = p" by simp_all
  with Cons.IH show ?case by (cases p) simp
qed

lemma getBounds_point:
  assumes "set ring = {p}"
  shows "getBoundsFromCoordinates ring =
     Some \<lparr>min_pt = \<lparr>lat = snd p, lng = fst p\<rparr>, max_pt = \<lparr>lat = snd p, lng = fst p\<rparr>,
           center = \<lparr>lat = (snd p + snd p) / 2, lng = (fst p + fst p) / 2\<rparr>\<rparr>"
proof -
  from assms obtain c0 rest where r: "ring = c0 # rest" by (cases ring) auto
  with assms have c0: "c0 = p" and all: "\<forall>c\<in>set ring. c = p" by auto
  show ?thesis
    using bounds_fold_const [OF all] by (simp add: getBoundsFromCoordinates_def r c0)
qed

text \<open>
  C4, as the code has it. For a ring whose points are all equal and any positive
  cell size, the bounds have equal corners, the row count and the column count of
  the candidate grid are both 0 (no count is raised to 1), there is no candidate
  cell, and the output is empty in main.js and in mobile.js.
\<close>

theorem degenerate_ring_no_cells:
  assumes "0 < gs" and "set ring = {p}"
  shows "\<exists>b. getBoundsFromCoordinates ring = Some b
           \<and> min_pt b = max_pt b
           \<and> latCells gs b = 0 \<and> lngCells gs b = 0 \<and> lngCells_mobile gs b = 0
           \<and> generateFieldGrid gs (Some \<lparr>coordinates = Some (ring # rest)\<rparr>) = Returns []
           \<and> generateFieldGrid_mobile gs (Some \<lparr>coordinates = Some (ring # rest)\<rparr>)
               = Returns []"
  by (simp add: getBounds_point [OF assms(2)] grid_Returns [OF getBounds_point [OF assms(2)]]
      grid_mobile_Returns [OF getBounds_point [OF assms(2)]]
      latCells_def lngCells_def lngCells_mobile_def)

theorem degenerate_ring_no_cells_witness:
  "(0::real) < 1 \<and> set example_point_ring = {(7385 / 100, 1852 / 100)}
   \<and> generateFieldGrid 1 (Some \<lparr>coordinates = Some [example_point_ring]\<rparr>) = Returns []
   \<and> generateFieldGrid_mobile 1 (Some \<lparr>coordinates = Some [example_point_ring]\<rparr>) = Returns []"
proof -
  have s: "set example_point_ring = {(7385 / 100, 1852 / 100)}"
    by (simp add: example_point_ring_def)
  show ?thesis
    using degenerate_ring_no_cells [OF _ s, of 1 "[]"] s by auto
qed

text \<open>
  The claim C4 as stated fails: for the ring of four equal points the counts are 0,
  not 1, and no cell is produced.
\<close>

theorem degenerate_ring_counterexample:
  "getBoundsFromCoordinates example_point_ring = Some example_point_bounds
   \<and> latCells 1 example_point_bounds = 0
   \<and> lngCells 1 example_point_bounds = 0
   \<and> lngCells_mobile 5 example_point_bounds = 0
   \<and> generateFieldGrid 1 (Some \<lparr>coordinates = Some [example_point_ring]\<rparr>) = Returns []
   \<and> generateFieldGrid_mobile 5 (Some \<lparr>coordinates = Some [example_point_ring]\<rparr>)
       = Returns []"
proof -
  have b: "getBoundsFromCoordinates example_point_ring = Some example_point_bounds"
    by (simp add: getBoundsFromCoordinates_def example_point_ring_def example_point_bounds_def)
  have n: "latCells 1 example_point_bounds = 0" "lngCells 1 example_point_bounds = 0"
    "lngCells_mobile 5 example_point_bounds = 0" "latCells 5 example_point_bounds = 0"
    by (simp_all add: latCells_def lngCells_def lngCells_mobile_def example_point_bounds_def)
  show ?thesis
    by (simp add: b n grid_Returns [OF b] grid_mobile_Returns [OF b])
qed


section \<open>Membership of a cell\<close>

lemma example_field_bounds_eq: "getBoundsFromCoordinates example_field = Some example_field_bounds"
  by (simp add: getBoundsFromCoordinates_def example_field_def example_field_bounds_def)

lemma example_field_steps:
  "gridSizeLat 1 = 1 / 111320" "gridSizeLng 1 example_field_bounds = 1 / 111320"
  "gridSizeLng_mobile 1 example_field_bounds = 1 / 111320"
  by (simp_all add: gridSizeLat_def gridSizeLng_def gridSizeLng_mobile_def latDegreePerMeter_def
      lngDegreePerMeter_def lngDegreePerMeter_mobile_def radians_def example_field_bounds_def)

lemma example_field_counts:
  "latCells 1 example_field_bounds = 4" "lngCells 1 example_field_bounds = 3"
  "lngCells_mobile 1 example_field_bounds = 3"
  by (simp_all add: latCells_def lngCells_def lngCells_mobile_def example_field_steps)
     (simp_all add: example_field_bounds_def)

lemma upt_4: "[0..<4] = [0, 1, 2, 3]" "[0..<3] = [0, 1, 2]"
  by (simp_all add: upt_rec)


lemma swap_back: "map (prod.swap \<circ> (\<lambda>c. (snd c, fst c))) ring = ring"
  by (induction ring) auto

lemma getCenter_rect:
  "getCenter [(lat1, lng1), (lat2, lng1), (lat2, lng2), (lat1, lng2)]
     = ((lat1 + lat2) / 2, (lng1 + lng2) / 2)"
  by (auto simp: min_def max_def)

lemma gridCellAt_mobile_iff:
  "(gridCellAt_mobile gs ring b i j \<noteq> None) =
     centerIncluded (cellLat gs b i) (cellLng_mobile gs b j)
       (cellLat gs b (i + 1)) (cellLng_mobile gs b (j + 1)) ring"
  unfolding gridCellAt_mobile_def Let_def getCenter_rect
  by (simp add: centerIncluded_def cellLat_def cellLng_mobile_def isPointInPolygon_mobile_eq
      swap_back)

lemma gridCellAt_iff:
  "(gridCellAt gs ring b i j \<noteq> None) =
     cornerIncluded (cellLat gs b i) (cellLng gs b j)
       (cellLat gs b (i + 1)) (cellLng gs b (j + 1)) ring"
  unfolding gridCellAt_def Let_def
  by (auto simp: cornerIncluded_def cellLat_def cellLng_def isPolygonWithinField_def)

lemma returned_grid:
  "getBoundsFromCoordinates ring = Some b \<Longrightarrow>
   set (returned (generateFieldGrid gs (Some \<lparr>coordinates = Some (ring # rest)\<rparr>))) =
     {c. \<exists>i<latCells gs b. \<exists>j<lngCells gs b. gridCellAt gs ring b i j = Some c}"
  by (simp only: grid_Returns returned.simps set_grid_loops)

lemma returned_grid_mobile:
  "getBoundsFromCoordinates ring = Some b \<Longrightarrow>
   set (returned (generateFieldGrid_mobile gs (Some \<lparr>coordinates = Some (ring # rest)\<rparr>))) =
     {l. \<exists>i<latCells gs b. \<exists>j<lngCells_mobile gs b. gridCellAt_mobile gs ring b i j = Some l}"
  by (simp only: grid_mobile_Returns returned.simps set_grid_loops)

text \<open>
  C3, as the code has it. In mobile.js a candidate cell is in the output exactly
  when the ray-casting test of its geometric center against the ring succeeds. In
  main.js a candidate cell is in the output exactly when one of its four corners
  passes the ray-casting test against the ring or the average of the ring's
  positions passes the ray-casting test against the cell rectangle. In both files
  the output holds the cells that pass and no others.
\<close>

theorem membership_classification:
  assumes "0 < gs"
  shows "(gridCellAt_mobile gs ring b i j \<noteq> None) =
     centerIncluded (cellLat gs b i) (cellLng_mobile gs b j)
       (cellLat gs b (i + 1)) (cellLng_mobile gs b (j + 1)) ring
   \<and> (gridCellAt gs ring b i j \<noteq> None) =
     cornerIncluded (cellLat gs b i) (cellLng gs b j)
       (cellLat gs b (i + 1)) (cellLng gs b (j + 1)) ring
   \<and> (getBoundsFromCoordinates ring = Some b \<longrightarrow>
        set (returned (generateFieldGrid_mobile gs (Some \<lparr>coordinates = Some (ring # rest)\<rparr>)))
          = {l. \<exists>i<latCells gs b. \<exists>j<lngCells_mobile gs b.
                  gridCellAt_mobile gs ring b i j = Some l}
        \<and> set (returned (generateFieldGrid gs (Some \<lparr>coordinates = Some (ring # rest)\<rparr>)))
          = {c. \<exists>i<latCells gs b. \<exists>j<lngCells gs b. gridCellAt gs ring b i j = Some c})"
  using gridCellAt_mobile_iff [of gs ring b i j] gridCellAt_iff [of gs ring b i j]
    returned_grid [of ring b gs rest] returned_grid_mobile [of ring b gs rest]
  by blast

theorem membership_classification_witness:
  "(0::real) < 1
   \<and> getBoundsFromCoordinates example_field = Some example_field_bounds
   \<and> gridCellAt_mobile 1 example_field example_field_bounds 2 1 = None
   \<and> \<not> centerIncluded (cellLat 1 example_field_bounds 2) (cellLng_mobile 1 example_field_bounds 1)
        (cellLat 1 example_field_bounds (2 + 1)) (cellLng_mobile 1 example_field_bounds (1 + 1)) example_field
   \<and> gridCellAt 1 example_field example_field_bounds 2 1 \<noteq> None
   \<and> cornerIncluded (cellLat 1 example_field_bounds 2) (cellLng 1 example_field_bounds 1)
        (cellLat 1 example_field_bounds (2 + 1)) (cellLng 1 example_field_bounds (1 + 1)) example_field
   \<and> set (returned (generateFieldGrid_mobile 1 (Some \<lparr>coordinates = Some [example_field]\<rparr>)))
        = {l. \<exists>i<4. \<exists>j<3. gridCellAt_mobile 1 example_field example_field_bounds i j = Some l}
   \<and> set (returned (generateFieldGrid 1 (Some \<lparr>coordinates = Some [example_field]\<rparr>)))
        = {c. \<exists>i<4. \<exists>j<3. gridCellAt 1 example_field example_field_bounds i j = Some c}"
proof -
  have m: "gridCellAt_mobile 1 example_field example_field_bounds 2 1 = None"
    unfolding gridCellAt_mobile_def Let_def example_field_steps
    by (simp add: ray_eval example_field_def example_field_bounds_def)
  have d: "gridCellAt 1 example_field example_field_bounds 2 1 \<noteq> None"
    unfolding gridCellAt_def Let_def example_field_steps
    by (simp add: ray_eval example_field_def example_field_bounds_def)
  show ?thesis
    using membership_classification [of 1 example_field example_field_bounds 2 1 "[]"]
      m d example_field_bounds_eq
    by (simp add: example_field_counts)
qed

text \<open>
  The claim C3 as stated fails for main.js: on the triangle with legs of 3 m and 4 m
  and 1 m cells, main.js outputs the cells 6, 8 and 10, whose centers are outside
  the triangle; the center test (as in mobile.js) yields the cells 1, 2, 3, 4, 5, 7.
  Cell 8 is row 2, column 1.
\<close>

theorem membership_counterexample:
  "map number (returned (generateFieldGrid 1 (Some \<lparr>coordinates = Some [example_field]\<rparr>)))
     = [1, 2, 3, 4, 5, 6, 7, 8, 10]
   \<and> map popup (returned (generateFieldGrid_mobile 1
        (Some \<lparr>coordinates = Some [example_field]\<rparr>)))
     = [Some 1, Some 2, Some 3, Some 4, Some 5, Some 7]
   \<and> gridCellAt 1 example_field example_field_bounds 2 1 \<noteq> None
   \<and> \<not> centerIncluded (cellLat 1 example_field_bounds 2) (cellLng 1 example_field_bounds 1)
        (cellLat 1 example_field_bounds 3) (cellLng 1 example_field_bounds 2) example_field"
proof -
  have a: "map number (returned (generateFieldGrid 1
       (Some \<lparr>coordinates = Some [example_field]\<rparr>))) = [1, 2, 3, 4, 5, 6, 7, 8, 10]"
    unfolding grid_Returns [OF example_field_bounds_eq] example_field_counts upt_4
      gridCellAt_def Let_def example_field_steps
    by (simp add: ray_eval example_field_def example_field_bounds_def getPolygonCenter_def
        List.map_filter_def)
  have b: "map popup (returned (generateFieldGrid_mobile 1
       (Some \<lparr>coordinates = Some [example_field]\<rparr>)))
     = [Some 1, Some 2, Some 3, Some 4, Some 5, Some 7]"
    unfolding grid_mobile_Returns [OF example_field_bounds_eq] example_field_counts upt_4
      gridCellAt_mobile_def Let_def example_field_steps
    by (simp add: ray_eval example_field_def example_field_bounds_def List.map_filter_def)
  have c: "gridCellAt 1 example_field example_field_bounds 2 1 \<noteq> None"
    unfolding gridCellAt_def Let_def example_field_steps
    by (simp add: ray_eval example_field_def example_field_bounds_def)
  have d: "\<not> centerIncluded (cellLat 1 example_field_bounds 2) (cellLng 1 example_field_bounds 1)
        (cellLat 1 example_field_bounds 3) (cellLng 1 example_field_bounds 2) example_field"
    unfolding centerIncluded_def cellLat_def cellLng_def example_field_steps
    by (simp add: ray_eval example_field_def example_field_bounds_def)
  from a b c d show ?thesis by blast
qed

section \<open>The rectangle of 100 m by 50 m\<close>

subsection \<open>In exact arithmetic\<close>

lemma cos_reference: "0 < cos (radians (1852 / 100))"
proof -
  have "- (pi / 2) < radians (1852 / 100)" "radians (1852 / 100) < pi / 2"
    using pi_gt_zero by (simp_all add: radians_def)
  then show ?thesis by (rule cos_gt_zero_pi)
qed

lemma getBounds_rectangle:
  "x0 \<le> x1 \<Longrightarrow> y0 \<le> y1 \<Longrightarrow>
   getBoundsFromCoordinates [(x0, y0), (x1, y0), (x1, y1), (x0, y1), (x0, y0)]
     = Some \<lparr>min_pt = \<lparr>lat = y0, lng = x0\<rparr>, max_pt = \<lparr>lat = y1, lng = x1\<rparr>,
             center = \<lparr>lat = (y0 + y1) / 2, lng = (x0 + x1) / 2\<rparr>\<rparr>"
  by (simp add: getBoundsFromCoordinates_def min_def max_def)

lemma ideal_bounds: "getBoundsFromCoordinates example_ideal = Some example_ideal_bounds"
proof -
  have w: "0 < 100 / (111320 * cos (radians (1852 / 100)))"
    using cos_reference by simp
  have "getBoundsFromCoordinates example_ideal
      = Some \<lparr>min_pt = \<lparr>lat = 1852 / 100 - 25 / 111320, lng = 7385 / 100\<rparr>,
              max_pt = \<lparr>lat = 1852 / 100 + 25 / 111320,
                         lng = 7385 / 100 + 100 / (111320 * cos (radians (1852 / 100)))\<rparr>,
              center = \<lparr>lat = (1852 / 100 - 25 / 111320 + (1852 / 100 + 25 / 111320)) / 2,
                         lng = (7385 / 100
                                + (7385 / 100 + 100 / (111320 * cos (radians (1852 / 100)))))
                               / 2\<rparr>\<rparr>"
    unfolding example_ideal_def using w by (intro getBounds_rectangle) simp_all
  then show ?thesis
    by (simp add: example_ideal_bounds_def)
qed

lemma ideal_steps:
  "gridSizeLat gs = gs / 111320"
  "gridSizeLng gs example_ideal_bounds = gs / (111320 * cos (radians (1852 / 100)))"
  "gridSizeLng_mobile gs example_ideal_bounds = gs / (111320 * cos (radians (1852 / 100)))"
  by (simp_all add: gridSizeLat_def gridSizeLng_def gridSizeLng_mobile_def latDegreePerMeter_def
      lngDegreePerMeter_def lngDegreePerMeter_mobile_def radians_def example_ideal_bounds_def
      mult.commute)

lemma ideal_counts:
  "latCells 10 example_ideal_bounds = 5" "lngCells 10 example_ideal_bounds = 10"
  "lngCells_mobile 10 example_ideal_bounds = 10"
  "latCells 1 example_ideal_bounds = 50" "lngCells 1 example_ideal_bounds = 100"
  "latCells 5 example_ideal_bounds = 10" "lngCells_mobile 5 example_ideal_bounds = 20"
  using cos_reference
  by (simp_all add: latCells_def lngCells_def lngCells_mobile_def ideal_steps)
     (simp_all add: example_ideal_bounds_def)


lemma rectangle_inside:
  assumes "x0 < x1" and "y0 < y1"
  shows "isPointInPolygon (x, y) [(x0, y0), (x1, y0), (x1, y1), (x0, y1), (x0, y0)]
       = (y0 \<le> y \<and> y < y1 \<and> x0 \<le> x \<and> x < x1)"
  using assms by (auto simp: isPointInPolygon_def rayLoop.simps intersect_def)

lemma ideal_degree:
  "0 < lngDegreePerMeter example_ideal_bounds"
  "lngDegreePerMeter_mobile example_ideal_bounds = lngDegreePerMeter example_ideal_bounds"
  "100 / (111320 * cos (radians (1852 / 100))) = 100 * lngDegreePerMeter example_ideal_bounds"
  using cos_reference
  by (simp_all add: lngDegreePerMeter_def lngDegreePerMeter_mobile_def radians_def
      example_ideal_bounds_def mult.commute)

lemma ideal_inside:
  "isPointInPolygon (x, y) example_ideal
     = (1852 / 100 - 25 / 111320 \<le> y \<and> y < 1852 / 100 + 25 / 111320
        \<and> 7385 / 100 \<le> x \<and> x < 7385 / 100 + 100 * lngDegreePerMeter example_ideal_bounds)"
  unfolding example_ideal_def ideal_degree(3)
  using ideal_degree(1) by (intro rectangle_inside) simp_all

lemma ideal_min:
  "lat (min_pt example_ideal_bounds) = 1852 / 100 - 25 / 111320"
  "lng (min_pt example_ideal_bounds) = 7385 / 100"
  by (simp_all add: example_ideal_bounds_def)

lemma ideal_lines:
  "cellLat 10 example_ideal_bounds i = 1852 / 100 - 25 / 111320 + real i * (10 / 111320)"
  "cellLng 10 example_ideal_bounds j
     = 7385 / 100 + real j * (10 * lngDegreePerMeter example_ideal_bounds)"
  "cellLng_mobile 10 example_ideal_bounds j
     = 7385 / 100 + real j * (10 * lngDegreePerMeter example_ideal_bounds)"
  by (simp_all add: cellLat_def cellLng_def cellLng_mobile_def gridSizeLat_def gridSizeLng_def
      gridSizeLng_mobile_def latDegreePerMeter_def ideal_min ideal_degree(2))

lemma column_inside:
  fixes u x0 :: real
  assumes "0 < u" and "j < 10"
  shows "x0 \<le> (x0 + real j * (10 * u) + (x0 + real (j + 1) * (10 * u))) / 2"
    and "(x0 + real j * (10 * u) + (x0 + real (j + 1) * (10 * u))) / 2 < x0 + 100 * u"
    and "x0 \<le> x0 + real j * (10 * u)"
    and "x0 + real j * (10 * u) < x0 + 100 * u"
proof -
  have j: "real j \<le> 9" using assms(2) by simp
  have e: "(x0 + real j * (10 * u) + (x0 + real (j + 1) * (10 * u))) / 2
      = x0 + (real j * 10 + 5) * u"
    by (simp add: algebra_simps)
  have a: "0 \<le> (real j * 10 + 5) * u" using assms(1) by simp
  have "(real j * 10 + 5) * u \<le> 95 * u"
    using j assms(1) by (intro mult_right_mono) simp_all
  then have b: "(real j * 10 + 5) * u < 100 * u" using assms(1) by simp
  have c: "0 \<le> real j * (10 * u)" using assms(1) by simp
  have "real j * (10 * u) \<le> 9 * (10 * u)"
    using j assms(1) by (intro mult_right_mono) simp_all
  then have d: "real j * (10 * u) < 100 * u" using assms(1) by simp
  show "x0 \<le> (x0 + real j * (10 * u) + (x0 + real (j + 1) * (10 * u))) / 2"
    unfolding e using a by simp
  show "(x0 + real j * (10 * u) + (x0 + real (j + 1) * (10 * u))) / 2 < x0 + 100 * u"
    unfolding e using b by simp
  show "x0 \<le> x0 + real j * (10 * u)" using c by simp
  show "x0 + real j * (10 * u) < x0 + 100 * u" using d by simp
qed

lemma row_arith:
  fixes t :: real
  assumes "0 \<le> t" and "t \<le> 4"
  shows "1852 / 100 - 25 / 111320
           \<le> (1852 / 100 - 25 / 111320 + t * (10 / 111320)
               + (1852 / 100 - 25 / 111320 + (t + 1) * (10 / 111320))) / 2"
    and "(1852 / 100 - 25 / 111320 + t * (10 / 111320)
               + (1852 / 100 - 25 / 111320 + (t + 1) * (10 / 111320))) / 2
           < 1852 / 100 + 25 / 111320"
    and "1852 / 100 - 25 / 111320 \<le> 1852 / 100 - 25 / 111320 + t * (10 / 111320)"
    and "1852 / 100 - 25 / 111320 + t * (10 / 111320) < 1852 / 100 + 25 / 111320"
  using assms by (simp_all add: field_simps)

lemma row_inside:
  assumes "i < 5"
  shows "1852 / 100 - 25 / 111320
           \<le> (cellLat 10 example_ideal_bounds i + cellLat 10 example_ideal_bounds (i + 1)) / 2"
    and "(cellLat 10 example_ideal_bounds i + cellLat 10 example_ideal_bounds (i + 1)) / 2
           < 1852 / 100 + 25 / 111320"
    and "1852 / 100 - 25 / 111320 \<le> cellLat 10 example_ideal_bounds i"
    and "cellLat 10 example_ideal_bounds i < 1852 / 100 + 25 / 111320"
proof -
  have r: "0 \<le> real i" "real i \<le> 4"
    using assms by simp_all
  have s: "real (i + 1) = real i + 1"
    by simp
  show "1852 / 100 - 25 / 111320
           \<le> (cellLat 10 example_ideal_bounds i + cellLat 10 example_ideal_bounds (i + 1)) / 2"
    unfolding ideal_lines s by (rule row_arith(1) [OF r])
  show "(cellLat 10 example_ideal_bounds i + cellLat 10 example_ideal_bounds (i + 1)) / 2
           < 1852 / 100 + 25 / 111320"
    unfolding ideal_lines s by (rule row_arith(2) [OF r])
  show "1852 / 100 - 25 / 111320 \<le> cellLat 10 example_ideal_bounds i"
    unfolding ideal_lines by (rule row_arith(3) [OF r])
  show "cellLat 10 example_ideal_bounds i < 1852 / 100 + 25 / 111320"
    unfolding ideal_lines by (rule row_arith(4) [OF r])
qed

lemma ideal_cell_mobile:
  assumes "i < 5" and "j < 10"
  shows "\<exists>l. gridCellAt_mobile 10 example_ideal example_ideal_bounds i j = Some l
           \<and> popup l = Some (i * 10 + j + 1)"
proof -
  have "centerIncluded (cellLat 10 example_ideal_bounds i) (cellLng_mobile 10 example_ideal_bounds j)
      (cellLat 10 example_ideal_bounds (i + 1)) (cellLng_mobile 10 example_ideal_bounds (j + 1))
      example_ideal"
    unfolding centerIncluded_def ideal_inside ideal_lines(3)
    using row_inside(1,2) [OF assms(1)] column_inside(1,2) [OF ideal_degree(1) assms(2)]
    by blast
  then obtain l where l: "gridCellAt_mobile 10 example_ideal example_ideal_bounds i j = Some l"
    using gridCellAt_mobile_iff [of 10 example_ideal example_ideal_bounds i j] by auto
  then show ?thesis
    using gridCellAt_mobile_Some(1) [OF l] by (simp add: ideal_counts)
qed

lemma ideal_cell:
  assumes "i < 5" and "j < 10"
  shows "\<exists>c. gridCellAt 10 example_ideal example_ideal_bounds i j = Some c
           \<and> number c = i * 10 + j + 1"
proof -
  have "isPointInPolygon (cellLng 10 example_ideal_bounds j, cellLat 10 example_ideal_bounds i)
      example_ideal"
    unfolding ideal_inside ideal_lines(2)
    using row_inside(3,4) [OF assms(1)] column_inside(3,4) [OF ideal_degree(1) assms(2)]
    by blast
  then have "cornerIncluded (cellLat 10 example_ideal_bounds i) (cellLng 10 example_ideal_bounds j)
      (cellLat 10 example_ideal_bounds (i + 1)) (cellLng 10 example_ideal_bounds (j + 1))
      example_ideal"
    by (simp add: cornerIncluded_def)
  then obtain c where c: "gridCellAt 10 example_ideal example_ideal_bounds i j = Some c"
    using gridCellAt_iff [of 10 example_ideal example_ideal_bounds i j] by auto
  then show ?thesis
    using gridCellAt_Some(1) [OF c] by (simp add: ideal_counts)
qed

lemma map_map_filter_all:
  "\<forall>x\<in>set xs. \<exists>l. f x = Some l \<and> h l = g x \<Longrightarrow> map h (List.map_filter f xs) = map g xs"
  by (induction xs) (auto simp: map_filter_simps)

lemma upt_10: "[0..<10] = [0, 1, 2, 3, 4, 5, 6, 7, 8, 9]" "[0..<5] = [0, 1, 2, 3, 4]"
  by (simp_all add: upt_rec)

lemma ideal_numbers:
  "concat (map (\<lambda>i. map (\<lambda>j. i * 10 + j + 1) [0..<10]) [0..<5]) = [1..<51]"
  unfolding upt_10 by (simp add: upt_rec)

lemma ideal_grid_mobile:
  "map popup (returned (generateFieldGrid_mobile 10 (Some \<lparr>coordinates = Some [example_ideal]\<rparr>)))
     = map Some [1..<51]"
proof -
  have row: "map popup (List.map_filter (gridCellAt_mobile 10 example_ideal example_ideal_bounds i)
        [0..<10]) = map (\<lambda>j. Some (i * 10 + j + 1)) [0..<10]" if "i < 5" for i
    by (rule map_map_filter_all) (use that ideal_cell_mobile in auto)
  have "map popup (returned (generateFieldGrid_mobile 10
        (Some \<lparr>coordinates = Some [example_ideal]\<rparr>)))
      = concat (map (\<lambda>i. map popup (List.map_filter
          (gridCellAt_mobile 10 example_ideal example_ideal_bounds i) [0..<10])) [0..<5])"
    by (simp add: grid_mobile_Returns [OF ideal_bounds] ideal_counts map_concat comp_def)
  also have "\<dots> = concat (map (\<lambda>i. map (\<lambda>j. Some (i * 10 + j + 1)) [0..<10]) [0..<5])"
    using row by (intro arg_cong [where f = concat] map_cong) auto
  also have "\<dots> = map Some (concat (map (\<lambda>i. map (\<lambda>j. i * 10 + j + 1) [0..<10]) [0..<5]))"
    by (simp add: map_concat comp_def)
  finally show ?thesis by (simp only: ideal_numbers)
qed

lemma ideal_grid:
  "map number (returned (generateFieldGrid 10 (Some \<lparr>coordinates = Some [example_ideal]\<rparr>)))
     = [1..<51]"
proof -
  have row: "map number (List.map_filter (gridCellAt 10 example_ideal example_ideal_bounds i)
        [0..<10]) = map (\<lambda>j. i * 10 + j + 1) [0..<10]" if "i < 5" for i
    by (rule map_map_filter_all) (use that ideal_cell in auto)
  have "map number (returned (generateFieldGrid 10
        (Some \<lparr>coordinates = Some [example_ideal]\<rparr>)))
      = concat (map (\<lambda>i. map number (List.map_filter
          (gridCellAt 10 example_ideal example_ideal_bounds i) [0..<10])) [0..<5])"
    by (simp add: grid_Returns [OF ideal_bounds] ideal_counts map_concat comp_def)
  also have "\<dots> = concat (map (\<lambda>i. map (\<lambda>j. i * 10 + j + 1) [0..<10]) [0..<5])"
    using row by (intro arg_cong [where f = concat] map_cong) auto
  finally show ?thesis by (simp only: ideal_numbers)
qed

subsection \<open>In double coordinates\<close>

lemma edges_subset: "e \<in> set (edges ps) \<Longrightarrow> fst e \<in> set ps \<and> snd e \<in> set ps"
proof (cases "ps = []")
  case True
  assume "e \<in> set (edges ps)"
  with True show ?thesis by (simp add: edges_def)
next
  case False
  assume "e \<in> set (edges ps)"
  then have "(fst e, snd e) \<in> set (zip ps (last ps # butlast ps))"
    using False by (simp add: edges_def)
  then have "fst e \<in> set ps" "snd e \<in> set (last ps # butlast ps)"
    by (rule set_zip_leftD, rule set_zip_rightD)
  moreover have "set (last ps # butlast ps) \<subseteq> set ps"
    using False by (auto dest: in_set_butlastD)
  ultimately show ?thesis by auto
qed

lemma above_ring_outside:
  assumes "\<forall>v\<in>set ring. snd v \<le> y"
  shows "\<not> isPointInPolygon (x, y) ring"
proof -
  have "\<not> intersect (x, y) (fst e) (snd e)" if "e \<in> set (edges ring)" for e
  proof -
    have "snd (fst e) \<le> y" "snd (snd e) \<le> y"
      using edges_subset [OF that] assms by auto
    then show ?thesis
      by (auto simp: intersect_def split: prod.splits)
  qed
  then have eq: "filter_mset (\<lambda>(vi, vj). intersect (x, y) vi vj) (mset (edges ring))
      = filter_mset (\<lambda>e. False) (mset (edges ring))"
    by (intro filter_mset_cong) (auto simp: case_prod_unfold)
  show ?thesis
    unfolding isPointInPolygon_count eq by simp
qed

lemma rectangle_doubles:
  "list_all double_point example_rectangle" "list_all double_point example_rectangle_below"
  by (simp_all add: example_rectangle_def example_rectangle_below_def double_point_def double_eval)

lemma rectangle_bounds:
  "getBoundsFromCoordinates example_rectangle = Some example_rectangle_bounds"
  "getBoundsFromCoordinates example_rectangle_below = Some example_rectangle_below_bounds"
  by (simp_all add: getBoundsFromCoordinates_def example_rectangle_def example_rectangle_bounds_def
      example_rectangle_below_def example_rectangle_below_bounds_def)

lemma rectangle_rows:
  "latCells 10 example_rectangle_bounds = 6"
  "latCells 1 example_rectangle_bounds = 51"
  "latCells 5 example_rectangle_bounds = 11"
  "latCells 10 example_rectangle_below_bounds = 5"
  "latCells 1 example_rectangle_below_bounds = 50"
  "latCells 5 example_rectangle_below_bounds = 10"
  by (simp_all add: latCells_def gridSizeLat_def latDegreePerMeter_def
      example_rectangle_bounds_def example_rectangle_below_bounds_def)

lemma rectangle_heights:
  "\<bar>(lat (max_pt example_rectangle_bounds) - lat (min_pt example_rectangle_bounds)) * 111320 - 50\<bar>
     < 1 / 10 ^ 9"
  "\<bar>(lat (max_pt example_rectangle_below_bounds) - lat (min_pt example_rectangle_below_bounds))
      * 111320 - 50\<bar> < 1 / 10 ^ 9"
  by (simp_all add: example_rectangle_bounds_def example_rectangle_below_bounds_def)

lemma rectangle_last_row:
  "gridCellAt_mobile 10 example_rectangle example_rectangle_bounds 5 j = None"
  "gridCellAt_mobile 5 example_rectangle example_rectangle_bounds 10 j = None"
proof -
  have a: "\<not> centerIncluded (cellLat gs example_rectangle_bounds i) lng1
             (cellLat gs example_rectangle_bounds (i + 1)) lng2 example_rectangle"
    if "lat (max_pt example_rectangle_bounds)
          \<le> (cellLat gs example_rectangle_bounds i + cellLat gs example_rectangle_bounds (i + 1)) / 2"
    for gs i lng1 lng2
    unfolding centerIncluded_def
    by (rule above_ring_outside)
       (use that in \<open>simp add: example_rectangle_def example_rectangle_bounds_def\<close>)
  show "gridCellAt_mobile 10 example_rectangle example_rectangle_bounds 5 j = None"
    using gridCellAt_mobile_iff [of 10 example_rectangle example_rectangle_bounds 5 j]
      a [of 10 5]
    by (simp add: cellLat_def gridSizeLat_def latDegreePerMeter_def example_rectangle_bounds_def)
  show "gridCellAt_mobile 5 example_rectangle example_rectangle_bounds 10 j = None"
    using gridCellAt_mobile_iff [of 5 example_rectangle example_rectangle_bounds 10 j]
      a [of 5 10]
    by (simp add: cellLat_def gridSizeLat_def latDegreePerMeter_def example_rectangle_bounds_def)
qed

text \<open>
  C5, as the code has it. The numbers of rows and columns are the ceilings of the
  quotients of the extents of the bounds by the cell steps, and the cell size is
  not an input of the code: it is fixed at 1 m in main.js and at 5 m in mobile.js.

  In exact arithmetic, and with the cell size set to 10 m, the scenario holds in
  both files for the rectangle of 100 m by 50 m centered at latitude 18.52: 5 rows,
  10 columns, and an output of 50 cells numbered 1 to 50 in row-major order. With
  the cell sizes of the code the same rectangle has 50 rows and 100 columns in
  main.js, 10 rows and 20 columns in mobile.js.

  A rectangle whose sides are whole multiples of the cell size sits on the
  boundary of the ceiling, so the rounding of its coordinates decides the counts.
  The rectangle in double coordinates, whose height differs from 50 m by less than
  a nanometer, has 6 rows at a cell size of 10 m (51 at 1 m, 11 at 5 m), so its
  number of candidate cells, 6 times the number of columns, is not 50; in mobile.js
  no cell of its last row is in the output, the centers of that row lying north of
  the ring. The ring whose north edge is the next double below has 5 rows (50 at
  1 m, 10 at 5 m).
\<close>

theorem rectangle_scenario:
  "getBoundsFromCoordinates example_ideal = Some example_ideal_bounds
   \<and> latCells 10 example_ideal_bounds = 5
   \<and> lngCells 10 example_ideal_bounds = 10
   \<and> lngCells_mobile 10 example_ideal_bounds = 10
   \<and> map number (returned (generateFieldGrid 10 (Some \<lparr>coordinates = Some [example_ideal]\<rparr>))) = [1..<51]
   \<and> map popup (returned (generateFieldGrid_mobile 10 (Some \<lparr>coordinates = Some [example_ideal]\<rparr>)))
       = map Some [1..<51]
   \<and> latCells 1 example_ideal_bounds = 50
   \<and> lngCells 1 example_ideal_bounds = 100
   \<and> latCells 5 example_ideal_bounds = 10
   \<and> lngCells_mobile 5 example_ideal_bounds = 20
   \<and> getBoundsFromCoordinates example_rectangle = Some example_rectangle_bounds
   \<and> list_all double_point example_rectangle
   \<and> \<bar>(lat (max_pt example_rectangle_bounds) - lat (min_pt example_rectangle_bounds)) * 111320
        - 50\<bar> < 1 / 10 ^ 9
   \<and> latCells 10 example_rectangle_bounds = 6
   \<and> latCells 1 example_rectangle_bounds = 51
   \<and> latCells 5 example_rectangle_bounds = 11
   \<and> latCells 10 example_rectangle_bounds * lngCells 10 example_rectangle_bounds \<noteq> 50
   \<and> latCells 10 example_rectangle_bounds * lngCells_mobile 10 example_rectangle_bounds \<noteq> 50
   \<and> gridCellAt_mobile 10 example_rectangle example_rectangle_bounds 5 j = None
   \<and> gridCellAt_mobile 5 example_rectangle example_rectangle_bounds 10 j = None
   \<and> getBoundsFromCoordinates example_rectangle_below = Some example_rectangle_below_bounds
   \<and> list_all double_point example_rectangle_below
   \<and> \<bar>(lat (max_pt example_rectangle_below_bounds) - lat (min_pt example_rectangle_below_bounds))
         * 111320 - 50\<bar> < 1 / 10 ^ 9
   \<and> latCells 10 example_rectangle_below_bounds = 5
   \<and> latCells 1 example_rectangle_below_bounds = 50
   \<and> latCells 5 example_rectangle_below_bounds = 10"
proof -
  have "6 * n \<noteq> 50" for n :: nat
    by presburger
  then have "latCells 10 example_rectangle_bounds * lngCells 10 example_rectangle_bounds \<noteq> 50"
    "latCells 10 example_rectangle_bounds * lngCells_mobile 10 example_rectangle_bounds \<noteq> 50"
    unfolding rectangle_rows by simp_all
  then show ?thesis
    using ideal_bounds ideal_counts ideal_grid ideal_grid_mobile
      rectangle_bounds rectangle_doubles rectangle_heights rectangle_rows
      rectangle_last_row [of j]
    by simp
qed

text \<open>
  The claim C5 as stated fails. The code has no cell size of 10 m: with its own
  cell sizes the rectangle has 50 rows and 100 columns in main.js, 10 rows and 20
  columns in mobile.js. And with a cell size of 10 m the rectangle in double
  coordinates has 6 rows, not 5, so that its number of candidate cells is not 50.
\<close>

theorem rectangle_scenario_counterexample:
  "latCells 1 example_ideal_bounds = 50
   \<and> lngCells 1 example_ideal_bounds = 100
   \<and> latCells 5 example_ideal_bounds = 10
   \<and> lngCells_mobile 5 example_ideal_bounds = 20
   \<and> getBoundsFromCoordinates example_rectangle = Some example_rectangle_bounds
   \<and> latCells 10 example_rectangle_bounds = 6
   \<and> latCells 10 example_rectangle_bounds * lngCells 10 example_rectangle_bounds \<noteq> 50"
proof -
  have "6 * n \<noteq> 50" for n :: nat
    by presburger
  then have "latCells 10 example_rectangle_bounds * lngCells 10 example_rectangle_bounds \<noteq> 50"
    unfolding rectangle_rows by simp
  then show ?thesis
    using ideal_counts rectangle_bounds rectangle_rows by simp
qed


section \<open>Degrees per meter\<close>

lemma bounds_fold_split:
  "fold (\<lambda>coord (minLat, maxLat, minLng, maxLng).
           case coord of (cLng, cLat) \<Rightarrow>
             (min minLat cLat, max maxLat cLat, min minLng cLng, max maxLng cLng))
        coords (a, b, c, d)
   = (fold min (map snd coords) (a::real), fold max (map snd coords) (b::real),
      fold min (map fst coords) (c::real), fold max (map fst coords) (d::real))"
  by (induction coords arbitrary: a b c d) (auto simp: min.commute max.commute)

lemma getBounds_Min_Max:
  assumes "getBoundsFromCoordinates coords = Some b"
  shows "lat (min_pt b) = Min (snd ` set coords)" "lat (max_pt b) = Max (snd ` set coords)"
    "lng (min_pt b) = Min (fst ` set coords)" "lng (max_pt b) = Max (fst ` set coords)"
    "lat (center b) = (lat (min_pt b) + lat (max_pt b)) / 2"
    "lng (center b) = (lng (min_pt b) + lng (max_pt b)) / 2"
proof -
  from assms obtain c0 rest where r: "coords = c0 # rest"
    by (cases coords) (auto simp: getBoundsFromCoordinates_def)
  have b: "b = \<lparr>min_pt = \<lparr>lat = fold min (map snd rest) (snd c0),
                            lng = fold min (map fst rest) (fst c0)\<rparr>,
                 max_pt = \<lparr>lat = fold max (map snd rest) (snd c0),
                            lng = fold max (map fst rest) (fst c0)\<rparr>,
                 center = \<lparr>lat = (fold min (map snd rest) (snd c0)
                                    + fold max (map snd rest) (snd c0)) / 2,
                            lng = (fold min (map fst rest) (fst c0)
                                    + fold max (map fst rest) (fst c0)) / 2\<rparr>\<rparr>"
    using assms by (cases c0) (simp add: getBoundsFromCoordinates_def r bounds_fold_split)
  have s: "snd ` set coords = set (snd c0 # map snd rest)"
    "fst ` set coords = set (fst c0 # map fst rest)"
    by (simp_all add: r)
  show "lat (min_pt b) = Min (snd ` set coords)" "lat (max_pt b) = Max (snd ` set coords)"
    "lng (min_pt b) = Min (fst ` set coords)" "lng (max_pt b) = Max (fst ` set coords)"
    unfolding s Min.set_eq_fold Max.set_eq_fold by (simp_all add: b)
  show "lat (center b) = (lat (min_pt b) + lat (max_pt b)) / 2"
    "lng (center b) = (lng (min_pt b) + lng (max_pt b)) / 2"
    by (simp_all add: b)
qed

text \<open>
  C6. Coordinate conversion. For every ring with bounds \<open>b\<close>, the degrees of
  latitude per meter are \<open>1 / 111320\<close>, the degrees of longitude per meter are
  \<open>1 / (111320 * cos (radians referenceLatitude))\<close> in both files, with
  \<open>radians d = d * pi / 180\<close>, where the reference latitude is the latitude of
  the center of the bounds, the mean of the least and the greatest latitude of the
  ring; the grid steps are the cell size times these scales.
\<close>

theorem coordinate_conversion:
  assumes "getBoundsFromCoordinates coords = Some b"
  shows "latDegreePerMeter = 1 / 111320
       \<and> lngDegreePerMeter b = 1 / (111320 * cos (radians (lat (center b))))
       \<and> lngDegreePerMeter_mobile b = 1 / (111320 * cos (radians (lat (center b))))
       \<and> radians (lat (center b)) = lat (center b) * pi / 180
       \<and> lat (center b) = (Min (snd ` set coords) + Max (snd ` set coords)) / 2
       \<and> gridSizeLat gs = gs * (1 / 111320)
       \<and> gridSizeLng gs b = gs * (1 / (111320 * cos (radians (lat (center b)))))
       \<and> gridSizeLng_mobile gs b = gs * (1 / (111320 * cos (radians (lat (center b)))))"
  using getBounds_Min_Max(1,2,5) [OF assms]
  by (simp add: latDegreePerMeter_def lngDegreePerMeter_def lngDegreePerMeter_mobile_def
      radians_def gridSizeLat_def gridSizeLng_def gridSizeLng_mobile_def mult.commute)

theorem coordinate_conversion_witness:
  "getBoundsFromCoordinates example_square = Some example_bounds
   \<and> lat (center example_bounds) = 0
   \<and> latDegreePerMeter = 1 / 111320
   \<and> lngDegreePerMeter example_bounds = 1 / 111320
   \<and> lngDegreePerMeter_mobile example_bounds = 1 / 111320
   \<and> gridSizeLat 5 = 5 / 111320
   \<and> gridSizeLng 5 example_bounds = 5 / 111320
   \<and> gridSizeLng_mobile 5 example_bounds = 5 / 111320"
proof -
  have c: "cos (radians (lat (center example_bounds))) = 1"
    by (simp add: example_bounds_def radians_def)
  note t = coordinate_conversion [OF example_square_bounds, of 5, unfolded c]
  from t have "latDegreePerMeter = 1 / 111320" by blast
  moreover from t have "lngDegreePerMeter example_bounds = 1 / 111320" by simp
  moreover from t have "lngDegreePerMeter_mobile example_bounds = 1 / 111320" by simp
  moreover from t have "gridSizeLat 5 = 5 / 111320" by simp
  moreover from t have "gridSizeLng 5 example_bounds = 5 / 111320" by simp
  moreover from t have "gridSizeLng_mobile 5 example_bounds = 5 / 111320" by simp
  moreover have "lat (center example_bounds) = 0" by (simp add: example_bounds_def)
  ultimately show ?thesis using example_square_bounds by blast
qed


section \<open>Status overlay\<close>

lemma ingest_fold_None:
  "fold (\<lambda>(key, cell) acc.
           case acc of
             None \<Rightarrow> None
           | Some mapping \<Rightarrow>
               (case toNumber (moistureOf cell) of
                  None \<Rightarrow> None
                | Some moisture \<Rightarrow>
                    Some (mapping(key \<mapsto> \<lparr>status = statusOf moisture, val = moisture\<rparr>))))
        cells None = None"
  by (induction cells) (auto split: prod.splits)

lemma ingest_fold_throws:
  "\<exists>e\<in>set cells. toNumber (moistureOf (snd e)) = None \<Longrightarrow>
   fold (\<lambda>(key, cell) acc.
           case acc of
             None \<Rightarrow> None
           | Some mapping \<Rightarrow>
               (case toNumber (moistureOf cell) of
                  None \<Rightarrow> None
                | Some moisture \<Rightarrow>
                    Some (mapping(key \<mapsto> \<lparr>status = statusOf moisture, val = moisture\<rparr>))))
        cells acc = None"
proof (induction cells arbitrary: acc)
  case Nil
  then show ?case by simp
next
  case (Cons x cells)
  obtain key cell where x: "x = (key, cell)" by (cases x)
  show ?case
  proof (cases "toNumber (moistureOf cell) = None \<or> acc = None")
    case True
    then show ?thesis
      by (auto simp: x ingest_fold_None split: option.splits)
  next
    case False
    with Cons.prems have "\<exists>e\<in>set cells. toNumber (moistureOf (snd e)) = None"
      by (auto simp: x)
    then show ?thesis
      by (simp add: x Cons.IH)
  qed
qed

lemma ingest_fold_lookup:
  "\<forall>e\<in>set cells. toNumber (moistureOf (snd e)) \<noteq> None \<Longrightarrow>
   \<exists>m. fold (\<lambda>(key, cell) acc.
           case acc of
             None \<Rightarrow> None
           | Some mapping \<Rightarrow>
               (case toNumber (moistureOf cell) of
                  None \<Rightarrow> None
                | Some moisture \<Rightarrow>
                    Some (mapping(key \<mapsto> \<lparr>status = statusOf moisture, val = moisture\<rparr>))))
        cells (Some m0) = Some m
     \<and> (\<forall>k. m k = (case map_of (rev cells) k of
                     None \<Rightarrow> m0 k
                   | Some cell \<Rightarrow>
                       map_option (\<lambda>moisture. \<lparr>status = statusOf moisture, val = moisture\<rparr>)
                         (toNumber (moistureOf cell))))"
proof (induction cells arbitrary: m0)
  case Nil
  then show ?case by simp
next
  case (Cons x cells)
  obtain key cell where x: "x = (key, cell)" by (cases x)
  from Cons.prems obtain d where d: "toNumber (moistureOf cell) = Some d"
    by (auto simp: x)
  let ?m1 = "m0(key \<mapsto> \<lparr>status = statusOf d, val = d\<rparr>)"
  from Cons.prems have "\<forall>e\<in>set cells. toNumber (moistureOf (snd e)) \<noteq> None"
    by simp
  from Cons.IH [OF this, of ?m1] obtain m where
    m: "fold (\<lambda>(key, cell) acc.
           case acc of
             None \<Rightarrow> None
           | Some mapping \<Rightarrow>
               (case toNumber (moistureOf cell) of
                  None \<Rightarrow> None
                | Some moisture \<Rightarrow>
                    Some (mapping(key \<mapsto> \<lparr>status = statusOf moisture, val = moisture\<rparr>))))
        cells (Some ?m1) = Some m"
    and l: "\<And>k. m k = (case map_of (rev cells) k of
                     None \<Rightarrow> ?m1 k
                   | Some cell \<Rightarrow>
                       map_option (\<lambda>moisture. \<lparr>status = statusOf moisture, val = moisture\<rparr>)
                         (toNumber (moistureOf cell)))"
    by blast
  have "m k = (case map_of (rev (x # cells)) k of
                     None \<Rightarrow> m0 k
                   | Some cell \<Rightarrow>
                       map_option (\<lambda>moisture. \<lparr>status = statusOf moisture, val = moisture\<rparr>)
                         (toNumber (moistureOf cell)))" for k
    unfolding l by (simp add: x d map_add_def split: option.splits)
  moreover have "fold (\<lambda>(key, cell) acc.
           case acc of
             None \<Rightarrow> None
           | Some mapping \<Rightarrow>
               (case toNumber (moistureOf cell) of
                  None \<Rightarrow> None
                | Some moisture \<Rightarrow>
                    Some (mapping(key \<mapsto> \<lparr>status = statusOf moisture, val = moisture\<rparr>))))
        (x # cells) (Some m0) = Some m"
    using m by (simp add: x d)
  ultimately show ?case by blast
qed

lemma ingestMapping_throws:
  "\<exists>e\<in>set cells. toNumber (moistureOf (snd e)) = None \<Longrightarrow> ingestMapping cells = None"
  unfolding ingestMapping_def by (rule ingest_fold_throws)

lemma ingestMapping_lookup:
  assumes "\<forall>e\<in>set cells. toNumber (moistureOf (snd e)) \<noteq> None"
  shows "\<exists>m. ingestMapping cells = Some m
     \<and> (\<forall>k. m k = (case map_of (rev cells) k of
                     None \<Rightarrow> None
                   | Some cell \<Rightarrow>
                       map_option (\<lambda>moisture. \<lparr>status = statusOf moisture, val = moisture\<rparr>)
                         (toNumber (moistureOf cell))))"
  using ingest_fold_lookup [OF assms, of Map.empty] unfolding ingestMapping_def by simp

lemma restyle_number: "number (restyle mp c) = number c"
  by (simp add: restyle_def split: option.splits)

lemma restyle_idem: "restyle mp (restyle mp c) = restyle mp c"
  by (cases "mp (number c)") (simp_all add: restyle_def setStyle_def)

lemma restyle_None: "mp (number c) = None \<Longrightarrow> layer (restyle mp c) = setStyle noEntryStyle (layer c)"
  by (simp add: restyle_def noEntryStyle_def setStyle_def)

lemma restyle_Some:
  "mp (number c) = Some m \<Longrightarrow> layer (restyle mp c) = setStyle (statusStyle (status m)) (layer c)"
  by (simp add: restyle_def statusStyle_def criticalStyle_def warnStyle_def okStyle_def
      setStyle_def)

text \<open>
  C8. Overlay idempotence. For every mapping (also a missing one) and every array of
  grid cells, restyling the cells twice from the same mapping gives the cells that
  restyling once gives; the same holds for ingesting the same snapshot twice.
\<close>

theorem overlay_idempotent:
  "updateGridStylesFromMapping mapping (updateGridStylesFromMapping mapping gridCells)
     = updateGridStylesFromMapping mapping gridCells
   \<and> ingestGridDataFromRTDB snapshot (ingestGridDataFromRTDB snapshot gridCells)
     = ingestGridDataFromRTDB snapshot gridCells"
  by (cases mapping; cases snapshot)
     (simp_all add: updateGridStylesFromMapping_def ingestGridDataFromRTDB_def restyle_idem
        split: option.splits)

lemma ingest_length:
  "length (ingestGridDataFromRTDB snapshot gridCells) = length gridCells"
  by (simp add: ingestGridDataFromRTDB_def updateGridStylesFromMapping_def split: option.splits)

lemma ingest_number:
  "k < length gridCells \<Longrightarrow>
   number (ingestGridDataFromRTDB snapshot gridCells ! k) = number (gridCells ! k)"
  by (simp add: ingestGridDataFromRTDB_def updateGridStylesFromMapping_def restyle_number
      split: option.splits)

lemmas parse_eval =
  StringToNumber_def trimString_def isStrWhiteSpaceChar_def nonDecimalIntegerLiteral_def
  strDecimalLiteral_def strUnsignedDecimalLiteral_def exponentPart_def isDigit_def
  digitValue_def digitsValue_def Let_def

lemma number_coercions:
  "toNumber JUndefined = Some NotANumber"
  "toNumber (JString ''abc'') = Some NotANumber"
  "toNumber (JObject []) = Some NotANumber"
  "toNumber (JArray [JNumber (Finite 1), JNumber (Finite 2)]) = Some NotANumber"
  "toNumber JNull = Some (Finite 0)"
  "toNumber (JString []) = Some (Finite 0)"
  "toNumber (JBool False) = Some (Finite 0)"
  "toNumber (JArray []) = Some (Finite 0)"
  "toNumber (JBool True) = Some (Finite 1)"
  "toNumber example_unconvertible = None"
  "toNumber (JArray [example_unconvertible]) = None"
  by (simp_all add: parse_eval example_unconvertible_def)

lemma moisture_readings:
  "moistureOf (example_reading v) = v"
  "moistureOf JNull = JUndefined"
  "moistureOf JUndefined = JUndefined"
  "moistureOf (JObject []) = JUndefined"
  "moistureOf (JNumber (Finite 55)) = JUndefined"
  by (simp_all add: moistureOf_def example_reading_def)

lemma status_values:
  "statusOf NotANumber = ''ok''"
  "statusOf (Finite 0) = ''critical''"
  "statusOf (Finite 1) = ''critical''"
  "statusOf (Finite 55) = ''ok''"
  "statusStyle ''ok'' = okStyle"
  "statusStyle ''critical'' = criticalStyle"
  by (simp_all add: statusOf_def statusStyle_def)

text \<open>
  C7, as the code has it. The reading of a cell record is
  \<^verbatim>\<open>Number(cell.moisture)\<close>, with the empty object for a missing or falsy record.
  Ingesting a snapshot keeps the count, order and numbers of the grid cells. When
  the conversion of some reading of the snapshot throws, the whole batch is
  dropped: the cells are left as they were. Otherwise a cell whose number has no
  entry in the snapshot gets no status and the default outline style, whose color
  differs from the ok style's, and a cell whose last record has a reading that
  converts to \<open>d\<close> gets the style of the status of \<open>d\<close>: \<^verbatim>\<open>'ok'\<close> and the ok style
  when \<open>d\<close> is NaN, the same as for a reading of 55, and \<^verbatim>\<open>'critical'\<close> when \<open>d\<close> is
  0 or 1. Missing readings, the string \<^verbatim>\<open>'abc'\<close>, plain objects and arrays of two
  numbers convert to NaN; \<^verbatim>\<open>null\<close>, the empty string, \<^verbatim>\<open>false\<close> and the empty
  array convert to 0, \<^verbatim>\<open>true\<close> to 1; an object with a property \<^verbatim>\<open>toString\<close> of
  its own, or an array holding one, cannot be converted. There is no status for
  missing data.
\<close>

theorem malformed_telemetry_as_coded:
  assumes "k < length gridCells"
  shows "length (ingestGridDataFromRTDB (Some cells) gridCells) = length gridCells
       \<and> number (ingestGridDataFromRTDB (Some cells) gridCells ! k) = number (gridCells ! k)
       \<and> ((\<exists>e\<in>set cells. toNumber (moistureOf (snd e)) = None) \<longrightarrow>
            ingestGridDataFromRTDB (Some cells) gridCells = gridCells)
       \<and> ((\<forall>e\<in>set cells. toNumber (moistureOf (snd e)) \<noteq> None) \<longrightarrow>
            (map_of (rev cells) (number (gridCells ! k)) = None \<longrightarrow>
               layer (ingestGridDataFromRTDB (Some cells) gridCells ! k)
                 = setStyle noEntryStyle (layer (gridCells ! k))
               \<and> color (options (layer (ingestGridDataFromRTDB (Some cells) gridCells ! k)))
                   \<noteq> color (okStyle opts))
            \<and> (map_of (rev cells) (number (gridCells ! k)) = Some cell
                 \<and> toNumber (moistureOf cell) = Some d \<longrightarrow>
               layer (ingestGridDataFromRTDB (Some cells) gridCells ! k)
                 = setStyle (statusStyle (statusOf d)) (layer (gridCells ! k))))
       \<and> statusOf NotANumber = ''ok'' \<and> statusOf (Finite 55) = ''ok''
       \<and> statusOf (Finite 0) = ''critical'' \<and> statusOf (Finite 1) = ''critical''
       \<and> statusStyle ''ok'' = okStyle \<and> statusStyle ''critical'' = criticalStyle
       \<and> toNumber (moistureOf JNull) = Some NotANumber
       \<and> toNumber (moistureOf (JObject [])) = Some NotANumber
       \<and> toNumber (moistureOf (example_reading (JString ''abc''))) = Some NotANumber
       \<and> toNumber (moistureOf (example_reading (JObject []))) = Some NotANumber
       \<and> toNumber (moistureOf (example_reading
            (JArray [JNumber (Finite 1), JNumber (Finite 2)]))) = Some NotANumber
       \<and> toNumber (moistureOf (example_reading JNull)) = Some (Finite 0)
       \<and> toNumber (moistureOf (example_reading (JString []))) = Some (Finite 0)
       \<and> toNumber (moistureOf (example_reading (JBool False))) = Some (Finite 0)
       \<and> toNumber (moistureOf (example_reading (JArray []))) = Some (Finite 0)
       \<and> toNumber (moistureOf (example_reading (JBool True))) = Some (Finite 1)
       \<and> toNumber (moistureOf (example_reading example_unconvertible)) = None
       \<and> toNumber (moistureOf (example_reading (JArray [example_unconvertible]))) = None"
proof -
  let ?c = "gridCells ! k"
  let ?out = "ingestGridDataFromRTDB (Some cells) gridCells"
  have l: "length ?out = length gridCells"
    by (rule ingest_length)
  have n: "number (?out ! k) = number ?c"
    using assms by (rule ingest_number)
  have t: "(\<exists>e\<in>set cells. toNumber (moistureOf (snd e)) = None) \<longrightarrow> ?out = gridCells"
    by (auto simp: ingestGridDataFromRTDB_def dest!: ingestMapping_throws)
  have s: "(map_of (rev cells) (number ?c) = None \<longrightarrow>
               layer (?out ! k) = setStyle noEntryStyle (layer ?c)
               \<and> color (options (layer (?out ! k))) \<noteq> color (okStyle opts))
            \<and> (map_of (rev cells) (number ?c) = Some cell
                 \<and> toNumber (moistureOf cell) = Some d \<longrightarrow>
               layer (?out ! k) = setStyle (statusStyle (statusOf d)) (layer ?c))"
    if ok: "\<forall>e\<in>set cells. toNumber (moistureOf (snd e)) \<noteq> None"
  proof -
    from ingestMapping_lookup [OF ok] obtain m where
      m: "ingestMapping cells = Some m"
      and look: "\<And>k. m k = (case map_of (rev cells) k of
                     None \<Rightarrow> None
                   | Some cell \<Rightarrow>
                       map_option (\<lambda>moisture. \<lparr>status = statusOf moisture, val = moisture\<rparr>)
                         (toNumber (moistureOf cell)))"
      by blast
    have out: "?out ! k = restyle m ?c"
      using assms by (simp add: ingestGridDataFromRTDB_def m updateGridStylesFromMapping_def)
    have a: "layer (?out ! k) = setStyle noEntryStyle (layer ?c)
        \<and> color (options (layer (?out ! k))) \<noteq> color (okStyle opts)"
      if "map_of (rev cells) (number ?c) = None"
    proof -
      have "m (number ?c) = None" using that by (simp add: look)
      then show ?thesis
        unfolding out by (simp add: restyle_None setStyle_def noEntryStyle_def okStyle_def)
    qed
    have b: "layer (?out ! k) = setStyle (statusStyle (statusOf d)) (layer ?c)"
      if "map_of (rev cells) (number ?c) = Some cell" "toNumber (moistureOf cell) = Some d"
    proof -
      have "m (number ?c) = Some \<lparr>status = statusOf d, val = d\<rparr>"
        using that by (simp add: look)
      then show ?thesis
        unfolding out by (simp add: restyle_Some)
    qed
    show ?thesis using a b by blast
  qed
  have c: "toNumber (moistureOf JNull) = Some NotANumber"
    "toNumber (moistureOf (JObject [])) = Some NotANumber"
    "toNumber (moistureOf (example_reading (JString ''abc''))) = Some NotANumber"
    "toNumber (moistureOf (example_reading (JObject []))) = Some NotANumber"
    "toNumber (moistureOf (example_reading
            (JArray [JNumber (Finite 1), JNumber (Finite 2)]))) = Some NotANumber"
    "toNumber (moistureOf (example_reading JNull)) = Some (Finite 0)"
    "toNumber (moistureOf (example_reading (JString []))) = Some (Finite 0)"
    "toNumber (moistureOf (example_reading (JBool False))) = Some (Finite 0)"
    "toNumber (moistureOf (example_reading (JArray []))) = Some (Finite 0)"
    "toNumber (moistureOf (example_reading (JBool True))) = Some (Finite 1)"
    "toNumber (moistureOf (example_reading example_unconvertible)) = None"
    "toNumber (moistureOf (example_reading (JArray [example_unconvertible]))) = None"
    by (simp_all only: moisture_readings number_coercions)
  show ?thesis
    using l n t s c status_values by blast
qed

theorem malformed_telemetry_as_coded_witness:
  "(2::nat) < length [example_cell 1, example_cell 2, example_cell 3]
   \<and> list_all (\<lambda>e. toNumber (moistureOf (snd e)) \<noteq> None)
        [(1, example_reading (JString ''abc'')), (2, example_reading JNull)]
   \<and> map_of (rev [(1, example_reading (JString ''abc'')), (2, example_reading JNull)])
        (number (example_cell 1)) = Some (example_reading (JString ''abc''))
   \<and> toNumber (moistureOf (example_reading (JString ''abc''))) = Some NotANumber
   \<and> map_of (rev [(1, example_reading (JString ''abc'')), (2, example_reading JNull)])
        (number (example_cell 2)) = Some (example_reading JNull)
   \<and> toNumber (moistureOf (example_reading JNull)) = Some (Finite 0)
   \<and> map_of (rev [(1, example_reading (JString ''abc'')), (2, example_reading JNull)])
        (number (example_cell 3)) = None
   \<and> layer (ingestGridDataFromRTDB
        (Some [(1, example_reading (JString ''abc'')), (2, example_reading JNull)])
        [example_cell 1, example_cell 2, example_cell 3] ! 0)
      = setStyle okStyle (layer (example_cell 1))
   \<and> layer (ingestGridDataFromRTDB
        (Some [(1, example_reading (JString ''abc'')), (2, example_reading JNull)])
        [example_cell 1, example_cell 2, example_cell 3] ! 1)
      = setStyle criticalStyle (layer (example_cell 2))
   \<and> layer (ingestGridDataFromRTDB
        (Some [(1, example_reading (JString ''abc'')), (2, example_reading JNull)])
        [example_cell 1, example_cell 2, example_cell 3] ! 2)
      = setStyle noEntryStyle (layer (example_cell 3))
   \<and> list_ex (\<lambda>e. toNumber (moistureOf (snd e)) = None)
        [(1, example_reading (JNumber (Finite 55))), (2, example_reading example_unconvertible)]
   \<and> ingestGridDataFromRTDB
        (Some [(1, example_reading (JNumber (Finite 55))),
               (2, example_reading example_unconvertible)])
        [example_cell 1, example_cell 2, example_cell 3]
      = [example_cell 1, example_cell 2, example_cell 3]"
proof -
  let ?cells = "[(1::nat, example_reading (JString ''abc'')), (2, example_reading JNull)]"
  let ?bad = "[(1::nat, example_reading (JNumber (Finite 55))),
               (2, example_reading example_unconvertible)]"
  let ?grid = "[example_cell 1, example_cell 2, example_cell 3]"
  let ?out = "ingestGridDataFromRTDB (Some ?cells) ?grid"
  let ?opts = "options (layer (example_cell 1))"
  have n: "\<And>i. number (example_cell i) = i"
    by (simp add: example_cell_def)
  have r: "toNumber (moistureOf (example_reading (JString ''abc''))) = Some NotANumber"
    "toNumber (moistureOf (example_reading JNull)) = Some (Finite 0)"
    "toNumber (moistureOf (example_reading (JNumber (Finite 55)))) = Some (Finite 55)"
    "toNumber (moistureOf (example_reading example_unconvertible)) = None"
    by (simp_all only: moisture_readings number_coercions toNumber.simps(4))
  have t0: "layer (?out ! 0) = setStyle okStyle (layer (example_cell 1))"
    using malformed_telemetry_as_coded
      [of 0 ?grid ?cells ?opts "example_reading (JString ''abc'')" NotANumber]
    by (simp add: n r)
  have t1: "layer (?out ! 1) = setStyle criticalStyle (layer (example_cell 2))"
    using malformed_telemetry_as_coded
      [of 1 ?grid ?cells ?opts "example_reading JNull" "Finite 0"]
    by (simp add: n r)
  have t2: "layer (?out ! 2) = setStyle noEntryStyle (layer (example_cell 3))"
    using malformed_telemetry_as_coded
      [of 2 ?grid ?cells ?opts "example_reading JNull" "Finite 0"]
    by (simp add: n r)
  have t3: "ingestGridDataFromRTDB (Some ?bad) ?grid = ?grid"
    using malformed_telemetry_as_coded
      [of 0 ?grid ?bad ?opts "example_reading JNull" "Finite 0"]
    by (simp add: n r)
  show ?thesis
    using t0 t1 t2 t3 by (simp add: n r)
qed

text \<open>
  The claim C7 as stated fails: the non-numeric reading \<^verbatim>\<open>'abc'\<close> is classified
  \<^verbatim>\<open>'ok'\<close>, and the restyled cell is the same as for the reading 55; the
  non-numeric reading \<^verbatim>\<open>null\<close> is classified \<^verbatim>\<open>'critical'\<close>; and a reading that
  cannot be converted makes the whole batch fail, the cell with the reading 28
  keeping its initial style.
\<close>

theorem malformed_telemetry_counterexample:
  "toNumber (moistureOf (example_reading (JString ''abc''))) = Some NotANumber
   \<and> statusOf NotANumber = ''ok''
   \<and> ingestGridDataFromRTDB (Some [(1, example_reading (JString ''abc''))]) [example_cell 1]
      = ingestGridDataFromRTDB (Some [(1, example_reading (JNumber (Finite 55)))])
          [example_cell 1]
   \<and> map (options \<circ> layer)
        (ingestGridDataFromRTDB (Some [(1, example_reading (JString ''abc''))]) [example_cell 1])
      = [\<lparr>color = ''#15803d'', weight = 0.8, opacity = 0.7, fillColor = ''#22c55e'',
          fillOpacity = 0.15, className = ''grid-cell''\<rparr>]
   \<and> map (options \<circ> layer)
        (ingestGridDataFromRTDB (Some [(1, example_reading JNull)]) [example_cell 1])
      = [\<lparr>color = ''#b91c1c'', weight = 1.2, opacity = 0.7, fillColor = ''#ef4444'',
          fillOpacity = 0.35, className = ''grid-cell''\<rparr>]
   \<and> ingestGridDataFromRTDB
        (Some [(1, example_reading (JNumber (Finite 28))),
               (2, example_reading example_unconvertible)])
        [example_cell 1, example_cell 2]
      = [example_cell 1, example_cell 2]"
proof -
  have r: "toNumber (moistureOf (example_reading (JString ''abc''))) = Some NotANumber"
    "toNumber (moistureOf (example_reading JNull)) = Some (Finite 0)"
    "toNumber (moistureOf (example_reading (JNumber (Finite 55)))) = Some (Finite 55)"
    "toNumber (moistureOf (example_reading (JNumber (Finite 28)))) = Some (Finite 28)"
    "toNumber (moistureOf (example_reading example_unconvertible)) = None"
    by (simp_all only: moisture_readings number_coercions toNumber.simps(4))
  show ?thesis
    unfolding ingestGridDataFromRTDB_def ingestMapping_def
    by (simp add: r statusOf_def updateGridStylesFromMapping_def restyle_def setStyle_def
        example_cell_def)
qed


end
